theory Spec2Isabelle
  imports Main
begin

section \<open>Data model (src/types/task.ts)\<close>

text \<open>
  Dates are JavaScript \<open>Date\<close> values, modelled by their \<open>getTime()\<close>: integer milliseconds
  since the epoch. Durations are minutes (\<open>number\<close>, entered through \<open>parseInt\<close>), modelled
  as \<open>int\<close>. Record fields carry a prefix (\<open>t_\<close>, \<open>b_\<close>, \<open>u_\<close>, \<open>r_\<close>) because the
  interfaces share field names.
\<close>

datatype TaskType = work | study | leisure
datatype Priority = low | medium | high
datatype BlockType = task | break | unavailable

record Task =
  t_id :: string
  t_name :: string
  t_duration :: int
  t_deadline :: int
  t_priority :: Priority
  t_type :: TaskType
  t_completed :: bool
  t_createdAt :: int
  t_scheduledTime :: "int option"

record TimeBlock =
  b_id :: string
  b_type :: BlockType
  b_startTime :: int
  b_endTime :: int
  b_title :: string
  b_description :: "string option"
  b_taskId :: "string option"
  b_task :: "Task option"
  b_isFixed :: "bool option"

datatype RecurType = daily | weekly

record Recurring =
  r_type :: RecurType
  r_days :: "int list option"

record UnavailableBlock =
  u_id :: string
  u_startTime :: int
  u_endTime :: int
  u_title :: string
  u_description :: "string option"
  u_recurring :: "Recurring option"

section \<open>JavaScript library functions used by the schedulers\<close>

text \<open>
  Local time is UTC plus a fixed offset \<open>tz\<close> (milliseconds); daylight-saving changes are
  not modelled. \<open>setHours tz d h m\<close> is \<open>d.setHours(h, m, 0, 0)\<close>, \<open>sameDateString\<close> is
  equality of \<open>toDateString()\<close>, and \<open>getDateKey\<close> is the UTC calendar day that
  \<open>toISOString().split('T')[0]\<close> names, kept as the day number.
\<close>

definition msPerMinute :: int where
  "msPerMinute = 60000"

definition msPerHour :: int where
  "msPerHour = 3600000"

definition msPerDay :: int where
  "msPerDay = 86400000"

definition localDay :: "int \<Rightarrow> int \<Rightarrow> int" where
  "localDay tz d = (d + tz) div msPerDay"

definition setHours :: "int \<Rightarrow> int \<Rightarrow> int \<Rightarrow> int \<Rightarrow> int" where
  "setHours tz d h m = localDay tz d * msPerDay + h * msPerHour + m * msPerMinute - tz"

definition getHours :: "int \<Rightarrow> int \<Rightarrow> int" where
  "getHours tz d = ((d + tz) mod msPerDay) div msPerHour"

definition getMinutes :: "int \<Rightarrow> int \<Rightarrow> int" where
  "getMinutes tz d = ((d + tz) mod msPerHour) div msPerMinute"

definition getDay :: "int \<Rightarrow> int \<Rightarrow> int" where
  "getDay tz d = (localDay tz d + 4) mod 7"

definition sameDateString :: "int \<Rightarrow> int \<Rightarrow> int \<Rightarrow> bool" where
  "sameDateString tz a b = (localDay tz a = localDay tz b)"

definition getDateKey :: "int \<Rightarrow> int" where
  "getDateKey d = d div msPerDay"

text \<open>
  \<open>Math.ceil(a / b)\<close> for an integer \<open>a\<close> and a positive integer \<open>b\<close>. The sources
  divide millisecond differences by a constant and compare the quotient with a number of
  minutes or hours; on integer milliseconds \<open>x / c <= k\<close> is \<open>x <= k * c\<close>, and the model
  states the comparison in that form.
\<close>

definition ceilDiv :: "int \<Rightarrow> int \<Rightarrow> int" where
  "ceilDiv a b = - ((- a) div b)"

text \<open>Template strings print numbers in decimal.\<close>

function showDigits :: "int \<Rightarrow> string" where
  "showDigits n = (if n < 10 then [''0123456789'' ! nat n]
                   else showDigits (n div 10) @ [''0123456789'' ! nat (n mod 10)])"
  by pat_completeness auto
termination
proof (relation "measure nat")
  show "wf (measure nat)" by simp
next
  fix n :: int
  assume "\<not> n < 10"
  then show "(n div 10, n) \<in> measure nat" by simp
qed

declare showDigits.simps [simp del]

definition showInt :: "int \<Rightarrow> string" where
  "showInt i = (if i < 0 then CHR ''-'' # showDigits (- i) else showDigits i)"

definition startsWith :: "string \<Rightarrow> string \<Rightarrow> bool" where
  "startsWith s p = (take (length p) s = p)"

fun splitOn :: "char \<Rightarrow> string \<Rightarrow> string list" where
  "splitOn c [] = [[]]"
| "splitOn c (x # xs) =
     (if x = c then [] # splitOn c xs
      else (case splitOn c xs of w # ws \<Rightarrow> (x # w) # ws | [] \<Rightarrow> [[x]]))"

text \<open>The bullet of the block descriptions, U+2022, as its UTF-8 bytes.\<close>

definition bullet :: string where
  "bullet = [CHR 0xE2, CHR 0x80, CHR 0xA2]"

definition showTaskType :: "TaskType \<Rightarrow> string" where
  "showTaskType ty = (case ty of work \<Rightarrow> ''work'' | study \<Rightarrow> ''study'' | leisure \<Rightarrow> ''leisure'')"

definition showPriority :: "Priority \<Rightarrow> string" where
  "showPriority p = (case p of low \<Rightarrow> ''low'' | medium \<Rightarrow> ''medium'' | high \<Rightarrow> ''high'')"

definition taskDescription :: "Task \<Rightarrow> string" where
  "taskDescription t =
     showTaskType (t_type t) @ '' '' @ bullet @ '' '' @ showPriority (t_priority t)
       @ '' priority '' @ bullet @ '' '' @ showInt (t_duration t) @ ''m''"

section \<open>ScheduleEngine (src/unnamed/part_001)\<close>

record ScheduleEngineConfig =
  workingHours_start :: int
  workingHours_end :: int
  shortBreakDuration :: int
  longBreakDuration :: int
  maxContinuousWork :: int
  longBreakThreshold :: int

definition defaultConfig :: ScheduleEngineConfig where
  "defaultConfig = \<lparr>workingHours_start = 9, workingHours_end = 17, shortBreakDuration = 15,
     longBreakDuration = 30, maxContinuousWork = 90, longBreakThreshold = 180\<rparr>"

text \<open>
  The engine object. \<open>adHocUnavailableByDate\<close> and \<open>suppressedRecurringInstances\<close> are the
  two \<open>Map\<close>s keyed by \<open>getDateKey\<close>. The clock (\<open>new Date()\<close>) is an argument \<open>now\<close> of
  every function that reads it.
\<close>

record ScheduleEngine =
  config :: ScheduleEngineConfig
  tasks :: "Task list"
  unavailableBlocks :: "UnavailableBlock list"
  schedule :: "TimeBlock list"
  adHocUnavailableByDate :: "int \<Rightarrow> TimeBlock list option"
  suppressedRecurringInstances :: "int \<Rightarrow> string set option"

record WorkDay =
  wd_start :: int
  wd_end :: int

definition newEngine :: ScheduleEngine where
  "newEngine = \<lparr>config = defaultConfig, tasks = [], unavailableBlocks = [], schedule = [],
     adHocUnavailableByDate = Map.empty, suppressedRecurringInstances = Map.empty\<rparr>"

definition setTasks :: "ScheduleEngine \<Rightarrow> Task list \<Rightarrow> ScheduleEngine" where
  "setTasks eng ts = eng\<lparr>tasks := filter (\<lambda>t. \<not> t_completed t) ts\<rparr>"

definition setUnavailableBlocks :: "ScheduleEngine \<Rightarrow> UnavailableBlock list \<Rightarrow> ScheduleEngine" where
  "setUnavailableBlocks eng bs = eng\<lparr>unavailableBlocks := bs\<rparr>"

definition timeSlotsOverlap :: "int \<Rightarrow> int \<Rightarrow> int \<Rightarrow> int \<Rightarrow> bool" where
  "timeSlotsOverlap start1 end1 start2 end2 = (start1 < end2 \<and> start2 < end1)"

definition createWorkDay :: "int \<Rightarrow> ScheduleEngineConfig \<Rightarrow> int \<Rightarrow> WorkDay" where
  "createWorkDay tz cfg date =
     \<lparr>wd_start = setHours tz date (workingHours_start cfg) 0,
      wd_end = setHours tz date (workingHours_end cfg) 0\<rparr>"

definition shouldIncludeBlock :: "int \<Rightarrow> UnavailableBlock \<Rightarrow> int \<Rightarrow> bool" where
  "shouldIncludeBlock tz block date =
     (case u_recurring block of
        None \<Rightarrow> True
      | Some r \<Rightarrow>
          if r_type r = daily then True
          else if r_type r = weekly \<and> r_days r \<noteq> None
          then getDay tz date \<in> set (the (r_days r))
          else False)"

definition recurringInstance :: "int \<Rightarrow> WorkDay \<Rightarrow> UnavailableBlock \<Rightarrow> TimeBlock list" where
  "recurringInstance tz workDay block =
     (let targetDate = wd_start workDay;
          startTime = setHours tz targetDate (getHours tz (u_startTime block))
                        (getMinutes tz (u_startTime block));
          endTime = setHours tz targetDate (getHours tz (u_endTime block))
                      (getMinutes tz (u_endTime block))
      in if timeSlotsOverlap startTime endTime (wd_start workDay) (wd_end workDay)
         then [\<lparr>b_id = ''unavailable-'' @ u_id block @ ''-'' @ showInt targetDate,
                b_type = unavailable,
                b_startTime = max startTime (wd_start workDay),
                b_endTime = min endTime (wd_end workDay),
                b_title = u_title block,
                b_description = u_description block,
                b_taskId = None, b_task = None, b_isFixed = Some True\<rparr>]
         else [])"

fun addRecurringBlocks ::
  "int \<Rightarrow> WorkDay \<Rightarrow> string set \<Rightarrow> UnavailableBlock list \<Rightarrow> TimeBlock list \<Rightarrow> TimeBlock list" where
  "addRecurringBlocks tz workDay suppressedIds [] sched = sched"
| "addRecurringBlocks tz workDay suppressedIds (block # rest) sched =
     (if u_id block \<in> suppressedIds then addRecurringBlocks tz workDay suppressedIds rest sched
      else if shouldIncludeBlock tz block (wd_start workDay)
      then addRecurringBlocks tz workDay suppressedIds rest
             (sched @ recurringInstance tz workDay block)
      else addRecurringBlocks tz workDay suppressedIds rest sched)"

fun addAdHocBlocks :: "WorkDay \<Rightarrow> TimeBlock list \<Rightarrow> TimeBlock list \<Rightarrow> TimeBlock list" where
  "addAdHocBlocks workDay [] sched = sched"
| "addAdHocBlocks workDay (block # rest) sched =
     (if timeSlotsOverlap (b_startTime block) (b_endTime block) (wd_start workDay) (wd_end workDay)
      then addAdHocBlocks workDay rest
             (sched @ [block\<lparr>b_startTime := max (b_startTime block) (wd_start workDay),
                              b_endTime := min (b_endTime block) (wd_end workDay)\<rparr>])
      else addAdHocBlocks workDay rest sched)"

definition addUnavailableBlocks ::
  "int \<Rightarrow> ScheduleEngine \<Rightarrow> WorkDay \<Rightarrow> int \<Rightarrow> TimeBlock list \<Rightarrow> TimeBlock list" where
  "addUnavailableBlocks tz eng workDay dateKey sched =
     (let suppressedIds = (case suppressedRecurringInstances eng dateKey of
                             None \<Rightarrow> {} | Some ids \<Rightarrow> ids);
          sched1 = addRecurringBlocks tz workDay suppressedIds (unavailableBlocks eng) sched;
          adHocBlocks = (case adHocUnavailableByDate eng dateKey of
                           None \<Rightarrow> [] | Some bs \<Rightarrow> bs)
      in addAdHocBlocks workDay adHocBlocks sched1)"

definition getUrgencyScore :: "int \<Rightarrow> Task \<Rightarrow> int" where
  "getUrgencyScore now t =
     (let timeToDeadline = t_deadline t - now
      in (if timeToDeadline \<le> 24 * msPerHour then 100
          else if timeToDeadline \<le> 48 * msPerHour then 80
          else if timeToDeadline \<le> 168 * msPerHour then 60
          else 20)
       + (if t_priority t = high then 50 else if t_priority t = medium then 30 else 10)
       + (if t_type t = work then 20 else if t_type t = study then 15 else 5))"

text \<open>
  \<open>Array.prototype.sort\<close> is stable; with the comparator \<open>score(b) - score(a)\<close> it is the
  stable sort by descending score, with \<open>a.startTime - b.startTime\<close> the stable sort by
  ascending start.
\<close>

definition prioritizeTasks :: "int \<Rightarrow> Task list \<Rightarrow> Task list" where
  "prioritizeTasks now ts = sort_key (\<lambda>t. - getUrgencyScore now t) ts"

definition roundUpToMinutes :: "int \<Rightarrow> int \<Rightarrow> int" where
  "roundUpToMinutes date minutes =
     (let ms = minutes * msPerMinute in ceilDiv date ms * ms)"

fun slotAfterBlocks :: "int \<Rightarrow> int \<Rightarrow> int \<Rightarrow> TimeBlock list \<Rightarrow> (int \<times> int) option" where
  "slotAfterBlocks duration endOfDay nextStart [] =
     (let finalEnd = nextStart + duration * msPerMinute
      in if finalEnd \<le> endOfDay then Some (nextStart, finalEnd) else None)"
| "slotAfterBlocks duration endOfDay nextStart (block # rest) =
     (let proposedEnd = nextStart + duration * msPerMinute
      in if proposedEnd \<le> b_startTime block then Some (nextStart, proposedEnd)
         else slotAfterBlocks duration endOfDay (b_endTime block) rest)"

definition findAvailableSlot ::
  "TimeBlock list \<Rightarrow> int \<Rightarrow> int \<Rightarrow> int \<Rightarrow> (int \<times> int) option" where
  "findAvailableSlot sched startTime duration endOfDay =
     (let endTime = startTime + duration * msPerMinute
      in if endTime > endOfDay then None
         else if \<not> list_ex (\<lambda>block. timeSlotsOverlap startTime endTime
                                   (b_startTime block) (b_endTime block)) sched
         then Some (startTime, endTime)
         else slotAfterBlocks duration endOfDay startTime
                (sort_key b_startTime (filter (\<lambda>b. b_endTime b > startTime) sched)))"

definition breakBlock :: "ScheduleEngineConfig \<Rightarrow> int \<Rightarrow> int \<Rightarrow> int \<Rightarrow> TimeBlock" where
  "breakBlock cfg startMs endMs breakDuration =
     \<lparr>b_id = ''break-'' @ showInt startMs, b_type = break,
      b_startTime = startMs, b_endTime = endMs,
      b_title = (if breakDuration = longBreakDuration cfg then ''Long Break'' else ''Short Break''),
      b_description = Some ''Time to recharge and stay productive'',
      b_taskId = None, b_task = None, b_isFixed = None\<rparr>"

definition taskBlock :: "Task \<Rightarrow> int \<Rightarrow> int \<Rightarrow> TimeBlock" where
  "taskBlock t startMs endMs =
     \<lparr>b_id = ''task-'' @ t_id t @ ''-'' @ showInt startMs, b_type = task,
      b_startTime = startMs, b_endTime = endMs,
      b_title = t_name t, b_description = Some (taskDescription t),
      b_taskId = Some (t_id t), b_task = Some t, b_isFixed = None\<rparr>"

text \<open>
  The loop of \<open>scheduleTasks\<close>: the state is the schedule, \<open>currentTime\<close> and
  \<open>continuousWorkTime\<close>. \<open>breakBeforeTask\<close> is the first statement of the loop body (the
  break check); both \<open>break\<close> statements end the loop.
\<close>

definition breakBeforeTask ::
  "ScheduleEngineConfig \<Rightarrow> WorkDay \<Rightarrow> TimeBlock list \<Rightarrow> int \<Rightarrow> int \<Rightarrow> TimeBlock list \<times> int \<times> int" where
  "breakBeforeTask cfg workDay sched currentTime continuousWorkTime =
     (if continuousWorkTime \<ge> maxContinuousWork cfg
      then (let breakDuration = (if continuousWorkTime \<ge> longBreakThreshold cfg
                                 then longBreakDuration cfg else shortBreakDuration cfg);
                breakEndTime = currentTime + breakDuration * msPerMinute
            in if breakEndTime \<le> wd_end workDay
               then (sched @ [breakBlock cfg currentTime breakEndTime breakDuration],
                     breakEndTime, 0)
               else (sched, currentTime, continuousWorkTime))
      else (sched, currentTime, continuousWorkTime))"

fun scheduleLoop ::
  "ScheduleEngineConfig \<Rightarrow> WorkDay \<Rightarrow> Task list \<Rightarrow> TimeBlock list \<Rightarrow> int \<Rightarrow> int \<Rightarrow> TimeBlock list" where
  "scheduleLoop cfg workDay [] sched currentTime continuousWorkTime = sched"
| "scheduleLoop cfg workDay (t # rest) sched currentTime continuousWorkTime =
     (case breakBeforeTask cfg workDay sched currentTime continuousWorkTime of
        (sched1, currentTime1, continuousWorkTime1) \<Rightarrow>
          (case findAvailableSlot sched1 currentTime1 (t_duration t) (wd_end workDay) of
             None \<Rightarrow> sched1
           | Some (slotStart, slotEnd) \<Rightarrow>
               (let sched2 = sched1 @ [taskBlock t slotStart slotEnd]
                in if slotEnd \<ge> wd_end workDay then sched2
                   else scheduleLoop cfg workDay rest sched2 slotEnd
                          (continuousWorkTime1 + t_duration t))))"

definition startFrom :: "WorkDay \<Rightarrow> int \<Rightarrow> int" where
  "startFrom workDay now =
     (if now \<ge> wd_start workDay \<and> now < wd_end workDay
      then roundUpToMinutes now 5 else wd_start workDay)"

definition scheduleTasks ::
  "ScheduleEngineConfig \<Rightarrow> int \<Rightarrow> Task list \<Rightarrow> WorkDay \<Rightarrow> TimeBlock list \<Rightarrow> TimeBlock list" where
  "scheduleTasks cfg now ts workDay sched =
     scheduleLoop cfg workDay ts sched (startFrom workDay now) 0"

text \<open>
  \<open>generateSchedule\<close> returns the sorted copy and leaves the unsorted list in
  \<open>this.schedule\<close>. \<open>prioritizeTasks\<close> and \<open>scheduleTasks\<close> each read the clock.
\<close>

definition generateSchedule ::
  "int \<Rightarrow> int \<Rightarrow> int \<Rightarrow> ScheduleEngine \<Rightarrow> int \<Rightarrow> TimeBlock list \<times> ScheduleEngine" where
  "generateSchedule tz nowP nowS eng date =
     (let workDay = createWorkDay tz (config eng) date;
          dateKey = getDateKey date;
          sched1 = addUnavailableBlocks tz eng workDay dateKey [];
          prioritizedTasks = prioritizeTasks nowP (tasks eng);
          sched2 = scheduleTasks (config eng) nowS prioritizedTasks workDay sched1
      in (sort_key b_startTime sched2, eng\<lparr>schedule := sched2\<rparr>))"

definition isSlotAvailable :: "TimeBlock list \<Rightarrow> int \<Rightarrow> int \<Rightarrow> string \<Rightarrow> bool" where
  "isSlotAvailable sched startTime endTime excludeTaskId =
     (\<not> list_ex (\<lambda>block.
          if excludeTaskId \<noteq> [] \<and> b_taskId block = Some excludeTaskId then False
          else timeSlotsOverlap startTime endTime (b_startTime block) (b_endTime block)) sched)"

text \<open>
  \<open>regenerateBreaks\<close>: \<open>gapDuration\<close> and \<open>breakDuration\<close> are minutes in the source; the
  model keeps them in milliseconds (\<open>gapMs = gapDuration * 60000\<close>), so that
  \<open>Math.min(d, gapDuration) * 60000\<close> is \<open>min (d * 60000) gapMs\<close>. \<open>breakAfter\<close> is the body
  of the loop: the break it pushes between \<open>currentTask\<close> and \<open>nextTask\<close>, if any.
\<close>

definition breakAfter :: "ScheduleEngineConfig \<Rightarrow> TimeBlock \<Rightarrow> TimeBlock \<Rightarrow> TimeBlock list" where
  "breakAfter cfg currentTask nextTask =
     (let gapMs = b_startTime nextTask - b_endTime currentTask;
          workDuration = (case b_task currentTask of None \<Rightarrow> 0 | Some t \<Rightarrow> t_duration t)
      in if gapMs \<ge> shortBreakDuration cfg * msPerMinute \<and> workDuration \<ge> 60
         then (let breakMs = (if workDuration \<ge> longBreakThreshold cfg
                              then min (longBreakDuration cfg * msPerMinute) gapMs
                              else min (shortBreakDuration cfg * msPerMinute) gapMs)
               in [\<lparr>b_id = ''break-'' @ showInt (b_endTime currentTask), b_type = break,
                     b_startTime = b_endTime currentTask,
                     b_endTime = b_endTime currentTask + breakMs,
                     b_title = (if breakMs = longBreakDuration cfg * msPerMinute
                                then ''Long Break'' else ''Short Break''),
                     b_description = Some ''Time to recharge and stay productive'',
                     b_taskId = None, b_task = None, b_isFixed = None\<rparr>])
         else [])"

fun regenerateBreaksLoop :: "ScheduleEngineConfig \<Rightarrow> TimeBlock list \<Rightarrow> TimeBlock list \<Rightarrow> TimeBlock list" where
  "regenerateBreaksLoop cfg (currentTask # nextTask # rest) sched =
     regenerateBreaksLoop cfg (nextTask # rest) (sched @ breakAfter cfg currentTask nextTask)"
| "regenerateBreaksLoop cfg taskBlocks sched = sched"

definition regenerateBreaks :: "ScheduleEngineConfig \<Rightarrow> TimeBlock list \<Rightarrow> TimeBlock list" where
  "regenerateBreaks cfg sched =
     (let sched1 = filter (\<lambda>b. b_type b \<noteq> break) sched;
          taskBlocks = sort_key b_startTime (filter (\<lambda>b. b_type b = task) sched1)
      in regenerateBreaksLoop cfg taskBlocks sched1)"

definition rescheduleTask ::
  "ScheduleEngine \<Rightarrow> string \<Rightarrow> int \<Rightarrow> TimeBlock list \<times> ScheduleEngine" where
  "rescheduleTask eng taskId newStartTime =
     (case find (\<lambda>b. b_taskId b = Some taskId) (schedule eng) of
        None \<Rightarrow> (schedule eng, eng)
      | Some blk \<Rightarrow>
          (case b_task blk of
             None \<Rightarrow> (schedule eng, eng)
           | Some t \<Rightarrow>
               (let newEndTime = newStartTime + t_duration t * msPerMinute
                in if isSlotAvailable (schedule eng) newStartTime newEndTime taskId
                   then (let sched1 = filter (\<lambda>b. b_taskId b \<noteq> Some taskId) (schedule eng);
                             sched2 = sched1 @ [taskBlock t newStartTime newEndTime];
                             sched3 = regenerateBreaks (config eng) sched2
                         in (sched3, eng\<lparr>schedule := sched3\<rparr>))
                   else (schedule eng, eng))))"

definition addUnavailableTime ::
  "int \<Rightarrow> int \<Rightarrow> int \<Rightarrow> ScheduleEngine \<Rightarrow> int \<Rightarrow> int \<Rightarrow> string \<Rightarrow> string option
     \<Rightarrow> TimeBlock list \<times> ScheduleEngine" where
  "addUnavailableTime tz nowP nowS eng startTime endTime title description =
     (let dateKey = getDateKey startTime;
          unavailableBlock = \<lparr>b_id = ''ad-hoc-'' @ showInt startTime, b_type = unavailable,
             b_startTime = startTime, b_endTime = endTime, b_title = title,
             b_description = description, b_taskId = None, b_task = None,
             b_isFixed = Some True\<rparr>;
          stored = (case adHocUnavailableByDate eng dateKey of None \<Rightarrow> [] | Some bs \<Rightarrow> bs);
          eng1 = eng\<lparr>adHocUnavailableByDate :=
                       (adHocUnavailableByDate eng)(dateKey \<mapsto> stored @ [unavailableBlock])\<rparr>
      in generateSchedule tz nowP nowS eng1 startTime)"

text \<open>
  \<open>blockId.split('-')[1]\<close>: under the guard \<open>startsWith('unavailable-')\<close> the split has at
  least two parts, so the last case below is never taken.
\<close>

definition secondPart :: "string \<Rightarrow> string" where
  "secondPart blockId = (case splitOn CHR ''-'' blockId of _ # p # _ \<Rightarrow> p | _ \<Rightarrow> [])"

definition deleteTimeBlock ::
  "int \<Rightarrow> int \<Rightarrow> int \<Rightarrow> ScheduleEngine \<Rightarrow> string \<Rightarrow> TimeBlock list \<times> ScheduleEngine" where
  "deleteTimeBlock tz nowP nowS eng blockId =
     (case find (\<lambda>b. b_id b = blockId) (schedule eng) of
        None \<Rightarrow> (schedule eng, eng)
      | Some block \<Rightarrow>
          (let dateKey = getDateKey (b_startTime block)
           in if startsWith blockId ''ad-hoc-''
              then (let adHocBlocks = (case adHocUnavailableByDate eng dateKey of
                                         None \<Rightarrow> [] | Some bs \<Rightarrow> bs);
                        filteredBlocks = filter (\<lambda>b. b_id b \<noteq> blockId) adHocBlocks;
                        eng1 = (if length filteredBlocks = 0
                                then eng\<lparr>adHocUnavailableByDate :=
                                           (adHocUnavailableByDate eng)(dateKey := None)\<rparr>
                                else eng\<lparr>adHocUnavailableByDate :=
                                           (adHocUnavailableByDate eng)(dateKey \<mapsto> filteredBlocks)\<rparr>)
                    in generateSchedule tz nowP nowS eng1 (b_startTime block))
              else if startsWith blockId ''unavailable-''
              then (let recurringBlockId = secondPart blockId;
                        ids = (case suppressedRecurringInstances eng dateKey of
                                 None \<Rightarrow> {} | Some s \<Rightarrow> s);
                        eng1 = eng\<lparr>suppressedRecurringInstances :=
                                  (suppressedRecurringInstances eng)
                                    (dateKey \<mapsto> insert recurringBlockId ids)\<rparr>
                    in generateSchedule tz nowP nowS eng1 (b_startTime block))
              else (let sched1 = filter (\<lambda>b. b_id b \<noteq> blockId) (schedule eng);
                        sched2 = (if startsWith blockId ''task-''
                                  then regenerateBreaks (config eng) sched1 else sched1)
                    in (sched2, eng\<lparr>schedule := sched2\<rparr>))))"

section \<open>ScheduleEngine, earlier version (src/unnamed/part_002)\<close>

text \<open>
  The earlier engine has the same \<open>rescheduleTask\<close>, \<open>isSlotAvailable\<close>, \<open>regenerateBreaks\<close>,
  \<open>shouldIncludeBlock\<close> and \<open>getUrgencyScore\<close>; its \<open>addUnavailableTime\<close> appends to the
  schedule directly.
\<close>

definition addUnavailableTime_v0 ::
  "ScheduleEngine \<Rightarrow> int \<Rightarrow> int \<Rightarrow> string \<Rightarrow> string option \<Rightarrow> TimeBlock list \<times> ScheduleEngine" where
  "addUnavailableTime_v0 eng startTime endTime title description =
     (let unavailableBlock = \<lparr>b_id = ''unavailable-'' @ showInt startTime, b_type = unavailable,
             b_startTime = startTime, b_endTime = endTime, b_title = title,
             b_description = description, b_taskId = None, b_task = None,
             b_isFixed = Some True\<rparr>;
          sched1 = schedule eng @ [unavailableBlock]
      in (sched1, eng\<lparr>schedule := sched1\<rparr>))"

section \<open>TimetableScheduler (src/unnamed/part_000, both versions)\<close>

text \<open>
  The file holds two versions of the class. Functions of the first carry the suffix
  \<open>_tt1\<close>, of the second \<open>_tt2\<close>, and \<open>_tt\<close> where the two versions have the same text.
  The private fields are constants.
\<close>

definition tt_dayStart :: int where "tt_dayStart = 6"
definition tt_dayEnd :: int where "tt_dayEnd = 23"
definition tt_shortBreakDuration :: int where "tt_shortBreakDuration = 15"
definition tt_longBreakDuration :: int where "tt_longBreakDuration = 30"
definition tt_maxContinuousWork :: int where "tt_maxContinuousWork = 90"

definition slotsOverlap :: "int \<Rightarrow> int \<Rightarrow> int \<Rightarrow> int \<Rightarrow> bool" where
  "slotsOverlap start1 end1 start2 end2 = (start1 < end2 \<and> end1 > start2)"

definition shouldIncludeBlock_tt1 :: "int \<Rightarrow> UnavailableBlock \<Rightarrow> int \<Rightarrow> bool" where
  "shouldIncludeBlock_tt1 tz block date =
     (case u_recurring block of
        None \<Rightarrow> True
      | Some r \<Rightarrow>
          if r_type r = daily then True
          else if r_type r = weekly
          then (case r_days r of None \<Rightarrow> False | Some days \<Rightarrow> getDay tz date \<in> set days)
          else True)"

definition shouldIncludeBlock_tt2 :: "int \<Rightarrow> UnavailableBlock \<Rightarrow> int \<Rightarrow> bool" where
  "shouldIncludeBlock_tt2 tz block date =
     (let blockDate = u_startTime block; targetDate = date
      in case u_recurring block of
           None \<Rightarrow> sameDateString tz blockDate targetDate
         | Some r \<Rightarrow>
             if r_type r = daily then True
             else if r_type r = weekly
             then (case r_days r of None \<Rightarrow> False | Some days \<Rightarrow> getDay tz date \<in> set days)
             else False)"

record Slot =
  s_start :: int
  s_end :: int
  s_available :: bool

datatype jsError = TypeError

function makeSlots :: "int \<Rightarrow> int \<Rightarrow> Slot list" where
  "makeSlots current dayEnd =
     (if current < dayEnd
      then \<lparr>s_start = current, s_end = current + 30 * msPerMinute, s_available = True\<rparr>
             # makeSlots (current + 30 * msPerMinute) dayEnd
      else [])"
  by pat_completeness auto
termination
proof (relation "measure (\<lambda>(current, dayEnd). nat (dayEnd - current))")
  show "wf (measure (\<lambda>(current, dayEnd). nat (dayEnd - current)))" by simp
next
  fix current dayEnd :: int
  assume "current < dayEnd"
  then show "((current + 30 * msPerMinute, dayEnd), (current, dayEnd))
               \<in> measure (\<lambda>(current, dayEnd). nat (dayEnd - current))"
    by (simp add: msPerMinute_def)
qed

declare makeSlots.simps [simp del]

definition markUnavailable :: "TimeBlock list \<Rightarrow> Slot list \<Rightarrow> Slot list" where
  "markUnavailable timetable slots =
     fold (\<lambda>block. map (\<lambda>slot.
             if slotsOverlap (s_start slot) (s_end slot) (b_startTime block) (b_endTime block)
             then slot\<lparr>s_available := False\<rparr> else slot))
          timetable slots"

text \<open>\<open>Array.prototype.slice(a, b)\<close>, with its treatment of negative and large arguments.\<close>

definition jsSlice :: "'a list \<Rightarrow> int \<Rightarrow> int \<Rightarrow> 'a list" where
  "jsSlice xs a b =
     (let len = int (length xs);
          k = (if a < 0 then max (len + a) 0 else min a len);
          final = (if b < 0 then max (len + b) 0 else min b len)
      in take (nat (final - k)) (drop (nat k) xs))"

text \<open>
  The search loop of \<open>findAvailableSlot\<close>. An empty \<open>consecutiveSlots\<close> passes \<open>every\<close>, and
  reading \<open>consecutiveSlots[0].start\<close> then throws a \<open>TypeError\<close>.
\<close>

function findRun :: "Slot list \<Rightarrow> int \<Rightarrow> int \<Rightarrow> jsError + (int \<times> int) option" where
  "findRun slots requiredSlots i =
     (if i \<le> int (length slots) - requiredSlots
      then (let consecutiveSlots = jsSlice slots i (i + requiredSlots)
            in if list_all s_available consecutiveSlots
               then (case consecutiveSlots of
                       [] \<Rightarrow> Inl TypeError
                     | _ # _ \<Rightarrow> Inr (Some (s_start (hd consecutiveSlots),
                                            s_end (last consecutiveSlots))))
               else findRun slots requiredSlots (i + 1))
      else Inr None)"
  by pat_completeness auto
termination
proof (relation "measure (\<lambda>(slots, requiredSlots, i). nat (int (length slots) - requiredSlots - i + 1))")
  show "wf (measure (\<lambda>(slots, requiredSlots, i). nat (int (length slots) - requiredSlots - i + 1)))"
    by simp
next
  fix slots :: "Slot list" and requiredSlots i :: int and x :: "Slot list"
  assume "i \<le> int (length slots) - requiredSlots"
  then show "((slots, requiredSlots, i + 1), (slots, requiredSlots, i))
               \<in> measure (\<lambda>(slots, requiredSlots, i). nat (int (length slots) - requiredSlots - i + 1))"
    by simp
qed

declare findRun.simps [simp del]

definition findAvailableSlot_tt1 ::
  "int \<Rightarrow> TimeBlock list \<Rightarrow> int \<Rightarrow> int \<Rightarrow> jsError + (int \<times> int) option" where
  "findAvailableSlot_tt1 tz timetable duration date =
     (let dayStart = setHours tz date tt_dayStart 0;
          dayEnd = setHours tz date tt_dayEnd 0;
          slots = markUnavailable timetable (makeSlots dayStart dayEnd);
          requiredSlots = ceilDiv duration 30
      in findRun slots requiredSlots 0)"

definition taskBlock_tt1 :: "Task \<Rightarrow> int \<Rightarrow> int \<Rightarrow> TimeBlock" where
  "taskBlock_tt1 t slotStart slotEnd =
     \<lparr>b_id = ''task-'' @ t_id t, b_type = task,
      b_startTime = slotStart, b_endTime = slotEnd,
      b_title = t_name t, b_description = Some (taskDescription t),
      b_taskId = Some (t_id t), b_task = Some (t\<lparr>t_scheduledTime := Some slotStart\<rparr>),
      b_isFixed = None\<rparr>"

fun placeTasks_tt1 :: "int \<Rightarrow> TimeBlock list \<Rightarrow> Task list \<Rightarrow> int \<Rightarrow> jsError + TimeBlock list" where
  "placeTasks_tt1 tz timetable [] date = Inr timetable"
| "placeTasks_tt1 tz timetable (t # rest) date =
     (case findAvailableSlot_tt1 tz timetable (t_duration t) date of
        Inl e \<Rightarrow> Inl e
      | Inr None \<Rightarrow> placeTasks_tt1 tz timetable rest date
      | Inr (Some (slotStart, slotEnd)) \<Rightarrow>
          placeTasks_tt1 tz (timetable @ [taskBlock_tt1 t slotStart slotEnd]) rest date)"

definition taskDurationOf :: "TimeBlock \<Rightarrow> int" where
  "taskDurationOf blk = (case b_task blk of None \<Rightarrow> 0 | Some t \<Rightarrow> t_duration t)"

text \<open>
  One iteration of the loop of \<open>insertBreaks\<close> (first version): the breaks it pushes and the
  new value of \<open>continuousWorkTime\<close>.
\<close>

definition insertBreaksStep :: "TimeBlock \<Rightarrow> TimeBlock \<Rightarrow> int \<Rightarrow> TimeBlock list \<times> int" where
  "insertBreaksStep currentTask nextTask continuousWorkTime0 =
     (let continuousWorkTime = continuousWorkTime0 + taskDurationOf currentTask;
          timeBetween = b_startTime nextTask - b_endTime currentTask;
          needsBreak = (continuousWorkTime \<ge> tt_maxContinuousWork \<or> timeBetween \<ge> 15 * 60000)
      in if needsBreak \<and> timeBetween \<ge> 15 * 60000
         then (let breakDuration = (if continuousWorkTime \<ge> 120 then tt_longBreakDuration
                                    else tt_shortBreakDuration);
                   breakEnd = b_endTime currentTask + breakDuration * 60000
               in if breakEnd \<le> b_startTime nextTask
                  then ([\<lparr>b_id = ''break-'' @ b_id currentTask @ ''-'' @ b_id nextTask,
                          b_type = break,
                          b_startTime = b_endTime currentTask, b_endTime = breakEnd,
                          b_title = (if breakDuration = tt_longBreakDuration
                                     then ''Long Break'' else ''Short Break''),
                          b_description = Some ''Time to recharge'',
                          b_taskId = None, b_task = None, b_isFixed = None\<rparr>],
                        if breakDuration = tt_longBreakDuration then 0 else continuousWorkTime)
                  else ([], continuousWorkTime))
         else ([], continuousWorkTime))"

fun insertBreaksLoop :: "TimeBlock list \<Rightarrow> TimeBlock list \<Rightarrow> int \<Rightarrow> TimeBlock list" where
  "insertBreaksLoop (currentTask # nextTask # rest) breaksToAdd continuousWorkTime =
     (case insertBreaksStep currentTask nextTask continuousWorkTime of
        (pushed, continuousWorkTime1) \<Rightarrow>
          insertBreaksLoop (nextTask # rest) (breaksToAdd @ pushed) continuousWorkTime1)"
| "insertBreaksLoop taskBlocks breaksToAdd continuousWorkTime = breaksToAdd"

definition insertBreaks :: "TimeBlock list \<Rightarrow> TimeBlock list" where
  "insertBreaks timetable =
     (let taskBlocks = sort_key b_startTime (filter (\<lambda>block. b_type block = task) timetable)
      in timetable @ insertBreaksLoop taskBlocks [] 0)"

text \<open>
  One iteration of the loop of \<open>insertIntelligentBreaks\<close> (second version).
  \<open>minutesBetween >= m\<close> is \<open>timeBetween \<ge> m * 60000\<close>.
\<close>

definition isIntensive :: "TimeBlock \<Rightarrow> bool" where
  "isIntensive blk =
     ((case b_task blk of None \<Rightarrow> False | Some t \<Rightarrow> t_priority t = high)
      \<or> taskDurationOf blk \<ge> 90)"

definition insertIntelligentBreaksStep ::
  "TimeBlock \<Rightarrow> TimeBlock \<Rightarrow> int \<Rightarrow> TimeBlock list \<times> int" where
  "insertIntelligentBreaksStep currentTask nextTask continuousWorkTime0 =
     (let taskDuration = taskDurationOf currentTask;
          continuousWorkTime = continuousWorkTime0 + taskDuration;
          timeBetween = b_startTime nextTask - b_endTime currentTask;
          needsShortBreak = (taskDuration \<ge> 45 \<and> timeBetween \<ge> tt_shortBreakDuration * 60000);
          needsLongBreak = (continuousWorkTime \<ge> tt_maxContinuousWork
                            \<and> timeBetween \<ge> tt_longBreakDuration * 60000);
          currentIntensive = isIntensive currentTask;
          nextIntensive = isIntensive nextTask;
          needsRestBreak = (currentIntensive \<and> nextIntensive
                            \<and> timeBetween \<ge> tt_shortBreakDuration * 60000);
          (pushed, continuousWorkTime1) =
            (if (needsLongBreak \<or> needsRestBreak \<or> needsShortBreak)
                \<and> timeBetween \<ge> tt_shortBreakDuration * 60000
             then (let breakDuration = (if needsLongBreak then tt_longBreakDuration
                                        else tt_shortBreakDuration);
                       breakEnd = b_endTime currentTask + breakDuration * 60000
                   in if breakEnd \<le> b_startTime nextTask
                      then ([\<lparr>b_id = ''break-'' @ b_id currentTask @ ''-'' @ b_id nextTask,
                              b_type = break,
                              b_startTime = b_endTime currentTask, b_endTime = breakEnd,
                              b_title = (if needsLongBreak then ''Extended Break''
                                         else if needsRestBreak then ''Rest Break''
                                         else ''Short Break''),
                              b_description = Some (if needsLongBreak
                                         then ''Extended rest for wellbeing''
                                         else if needsRestBreak then ''Recovery from intensive work''
                                         else ''Quick refresh''),
                              b_taskId = None, b_task = None, b_isFixed = None\<rparr>],
                            if needsLongBreak then 0 else continuousWorkTime)
                      else ([], continuousWorkTime))
             else ([], continuousWorkTime))
      in (pushed, if timeBetween \<ge> 60 * 60000 then 0 else continuousWorkTime1))"

fun insertIntelligentBreaksLoop :: "TimeBlock list \<Rightarrow> TimeBlock list \<Rightarrow> int \<Rightarrow> TimeBlock list" where
  "insertIntelligentBreaksLoop (currentTask # nextTask # rest) breaksToAdd continuousWorkTime =
     (case insertIntelligentBreaksStep currentTask nextTask continuousWorkTime of
        (pushed, continuousWorkTime1) \<Rightarrow>
          insertIntelligentBreaksLoop (nextTask # rest) (breaksToAdd @ pushed) continuousWorkTime1)"
| "insertIntelligentBreaksLoop taskBlocks breaksToAdd continuousWorkTime = breaksToAdd"

definition insertIntelligentBreaks :: "TimeBlock list \<Rightarrow> TimeBlock list" where
  "insertIntelligentBreaks timetable =
     (let taskBlocks = sort_key b_startTime (filter (\<lambda>block. b_type block = task) timetable)
      in timetable @ insertIntelligentBreaksLoop taskBlocks [] 0)"

definition getBalancedScore :: "int \<Rightarrow> Task \<Rightarrow> int" where
  "getBalancedScore now t =
     (let timeToDeadline = t_deadline t - now
      in (if timeToDeadline \<le> 24 * msPerHour then 80
          else if timeToDeadline \<le> 48 * msPerHour then 60
          else if timeToDeadline \<le> 168 * msPerHour then 40
          else 15)
       + (if t_priority t = high then 40 else if t_priority t = medium then 25 else 10)
       + (if t_type t = work then 15 else if t_type t = study then 12 else 8)
       - (if t_duration t > 120 then 10 else 0)
       - (if t_duration t > 180 then 15 else 0))"

definition prioritizeTasks_tt2 :: "int \<Rightarrow> Task list \<Rightarrow> int \<Rightarrow> Task list" where
  "prioritizeTasks_tt2 now ts targetDate =
     sort_key (\<lambda>t. - getBalancedScore now t)
       (filter (\<lambda>t. let daysDiff = ceilDiv (t_deadline t - targetDate) msPerDay
                     in daysDiff \<ge> 0 \<or> (daysDiff \<ge> -1 \<and> \<not> t_completed t)) ts)"

fun findIndex :: "('a \<Rightarrow> bool) \<Rightarrow> 'a list \<Rightarrow> nat option" where
  "findIndex P [] = None"
| "findIndex P (x # xs) = (if P x then Some 0 else map_option Suc (findIndex P xs))"

definition rescheduleTask_tt :: "string \<Rightarrow> int \<Rightarrow> TimeBlock list \<Rightarrow> TimeBlock list" where
  "rescheduleTask_tt taskId newStartTime timetable =
     (case findIndex (\<lambda>block. b_taskId block = Some taskId) timetable of
        None \<Rightarrow> timetable
      | Some taskIndex \<Rightarrow>
          (let blk = timetable ! taskIndex;
               duration = b_endTime blk - b_startTime blk;
               newEndTime = newStartTime + duration;
               conflictExists = list_ex (\<lambda>(index, block). index \<noteq> taskIndex
                    \<and> slotsOverlap newStartTime newEndTime (b_startTime block) (b_endTime block))
                  (enumerate 0 timetable)
           in if \<not> conflictExists
              then timetable[taskIndex := blk\<lparr>b_startTime := newStartTime, b_endTime := newEndTime,
                     b_task := map_option (\<lambda>t. t\<lparr>t_scheduledTime := Some newStartTime\<rparr>) (b_task blk)\<rparr>]
              else timetable))"

text \<open>\<open>crypto.randomUUID()\<close> is the argument \<open>uuid\<close>.\<close>

definition addUnavailableTime_tt ::
  "string \<Rightarrow> UnavailableBlock list \<Rightarrow> int \<Rightarrow> int \<Rightarrow> string \<Rightarrow> string option
     \<Rightarrow> UnavailableBlock \<times> UnavailableBlock list" where
  "addUnavailableTime_tt uuid blocks startTime endTime title description =
     (let newBlock = \<lparr>u_id = uuid, u_startTime = startTime, u_endTime = endTime,
                       u_title = title, u_description = description, u_recurring = None\<rparr>
      in (newBlock, blocks @ [newBlock]))"

section \<open>Properties of schedules\<close>

text \<open>
  \<open>blocksOverlap\<close> is the strict open-interval test on two blocks. \<open>noOverlap\<close> says that
  no two blocks at different positions of a schedule overlap. \<open>noOverlapApartFromBreaks\<close>
  says the same of every pair except a break paired with an unavailable block.
\<close>

definition blocksOverlap :: "TimeBlock \<Rightarrow> TimeBlock \<Rightarrow> bool" where
  "blocksOverlap a b = timeSlotsOverlap (b_startTime a) (b_endTime a) (b_startTime b) (b_endTime b)"

definition noOverlap :: "TimeBlock list \<Rightarrow> bool" where
  "noOverlap sched = sorted_wrt (\<lambda>a b. \<not> blocksOverlap a b) sched"

definition breakWithUnavailable :: "TimeBlock \<Rightarrow> TimeBlock \<Rightarrow> bool" where
  "breakWithUnavailable a b =
     (b_type a = break \<and> b_type b = unavailable \<or> b_type a = unavailable \<and> b_type b = break)"

definition disjointOrExempt :: "TimeBlock \<Rightarrow> TimeBlock \<Rightarrow> bool" where
  "disjointOrExempt a b = (breakWithUnavailable a b \<or> \<not> blocksOverlap a b)"

definition noOverlapApartFromBreaks :: "TimeBlock list \<Rightarrow> bool" where
  "noOverlapApartFromBreaks sched = sorted_wrt disjointOrExempt sched"

text \<open>
  The invariant of the loop of \<open>scheduleTasks\<close>: apart from a break paired with an
  unavailable block no two blocks overlap, every unavailable block has a positive length,
  and every task or break block ends at or before \<open>currentTime\<close>.
\<close>

definition schedInv :: "TimeBlock list \<Rightarrow> int \<Rightarrow> bool" where
  "schedInv sched cur \<longleftrightarrow>
     sorted_wrt disjointOrExempt sched
     \<and> (\<forall>b\<in>set sched. if b_type b = unavailable then b_startTime b < b_endTime b
                        else b_endTime b \<le> cur)"

text \<open>
  \<open>scheduleOk\<close>: apart from a break paired with an unavailable block no two blocks
  overlap, every task block has start before end, and every task attached to a block has a
  positive duration.
\<close>

definition scheduleOk :: "TimeBlock list \<Rightarrow> bool" where
  "scheduleOk sched \<longleftrightarrow>
     noOverlapApartFromBreaks sched
     \<and> (\<forall>b\<in>set sched. b_type b = task \<longrightarrow> b_startTime b < b_endTime b)
     \<and> (\<forall>b\<in>set sched. case b_task b of None \<Rightarrow> True | Some t \<Rightarrow> 0 < t_duration t)"


section \<open>Example inputs\<close>

definition exTask :: "string \<Rightarrow> int \<Rightarrow> int \<Rightarrow> Priority \<Rightarrow> TaskType \<Rightarrow> Task" where
  "exTask i d dl p ty = \<lparr>t_id = i, t_name = i, t_duration = d, t_deadline = dl, t_priority = p,
     t_type = ty, t_completed = False, t_createdAt = 0, t_scheduledTime = None\<rparr>"

definition exBlock :: "string \<Rightarrow> BlockType \<Rightarrow> int \<Rightarrow> int \<Rightarrow> Task option \<Rightarrow> TimeBlock" where
  "exBlock i ty s e t = \<lparr>b_id = i, b_type = ty, b_startTime = s, b_endTime = e, b_title = i,
     b_description = None, b_taskId = map_option t_id t, b_task = t, b_isFixed = None\<rparr>"

text \<open>
  The examples use the time zone UTC (\<open>tz = 0\<close>) and the day 1970-01-01 (a Thursday);
  \<open>hm h m\<close> is the time \<open>h:m\<close> of that day.
\<close>

definition hm :: "int \<Rightarrow> int \<Rightarrow> int" where
  "hm h m = h * 3600000 + m * 60000"

definition exRule :: "string \<Rightarrow> int \<Rightarrow> int \<Rightarrow> Recurring option \<Rightarrow> UnavailableBlock" where
  "exRule i s e r = \<lparr>u_id = i, u_startTime = s, u_endTime = e, u_title = i,
     u_description = None, u_recurring = r\<rparr>"

definition everyDay :: "Recurring option" where
  "everyDay = Some \<lparr>r_type = daily, r_days = None\<rparr>"

definition exEngine :: "Task list \<Rightarrow> UnavailableBlock list \<Rightarrow> ScheduleEngine" where
  "exEngine ts rules = setUnavailableBlocks (setTasks newEngine ts) rules"

definition blockTimes :: "TimeBlock list \<Rightarrow> (BlockType \<times> int \<times> int) list" where
  "blockTimes sched = map (\<lambda>b. (b_type b, b_startTime b, b_endTime b)) sched"

definition engLunch :: ScheduleEngine where
  "engLunch = exEngine [exTask ''t1'' 60 (hm 11 0) high work, exTask ''t2'' 30 (hm 72 0) low leisure]
                [exRule ''lunch'' (hm 12 0) (hm 13 0) everyDay]"

definition engOneTask :: ScheduleEngine where
  "engOneTask = exEngine [exTask ''t1'' 60 (hm 11 0) high work] []"

definition engTwoRules :: ScheduleEngine where
  "engTwoRules = exEngine [] [exRule ''a'' (hm 10 0) (hm 12 0) everyDay,
                              exRule ''b'' (hm 11 0) (hm 13 0) everyDay]"

definition engCall :: ScheduleEngine where
  "engCall = exEngine [exTask ''t1'' 90 (hm 11 0) high work, exTask ''t2'' 30 (hm 72 0) low leisure]
               [exRule ''call'' (hm 10 30) (hm 11 0) everyDay]"

definition exSchedule :: "TimeBlock list" where
  "exSchedule = [exBlock ''task-t1'' task (hm 9 0) (hm 10 0) (Some (exTask ''t1'' 60 (hm 11 0) high work)),
                 exBlock ''unavailable-lunch'' unavailable (hm 12 0) (hm 13 0) None]"

definition engShort :: ScheduleEngine where
  "engShort = exEngine [exTask ''t1'' 45 (hm 11 0) high work] []"

definition exDentist :: UnavailableBlock where
  "exDentist = exRule ''dentist'' (hm 10 0) (hm 11 0) None"

definition exA45 :: TimeBlock where
  "exA45 = exBlock ''task-a'' task (hm 9 0) (hm 9 45) (Some (exTask ''a'' 45 (hm 72 0) low leisure))"

definition exB :: TimeBlock where
  "exB = exBlock ''task-b'' task (hm 10 0) (hm 10 30) (Some (exTask ''b'' 30 (hm 72 0) low leisure))"

definition exA90 :: TimeBlock where
  "exA90 = exBlock ''task-c'' task (hm 9 0) (hm 10 30) (Some (exTask ''c'' 90 (hm 72 0) low leisure))"

definition exB11 :: TimeBlock where
  "exB11 = exBlock ''task-d'' task (hm 11 0) (hm 11 30) (Some (exTask ''d'' 30 (hm 72 0) low leisure))"

definition exBreakV2 :: TimeBlock where
  "exBreakV2 = \<lparr>b_id = ''break-task-a-task-b'', b_type = break, b_startTime = hm 9 45,
     b_endTime = hm 10 0, b_title = ''Short Break'', b_description = Some ''Quick refresh'',
     b_taskId = None, b_task = None, b_isFixed = None\<rparr>"

definition exBreakV1 :: TimeBlock where
  "exBreakV1 = \<lparr>b_id = ''break-task-a-task-b'', b_type = break, b_startTime = hm 9 45,
     b_endTime = hm 10 0, b_title = ''Short Break'', b_description = Some ''Time to recharge'',
     b_taskId = None, b_task = None, b_isFixed = None\<rparr>"

definition engStandup :: ScheduleEngine where
  "engStandup = exEngine [exTask ''t1'' 60 (hm 11 0) high work, exTask ''t2'' 30 (hm 72 0) low leisure]
                  [exRule ''standup'' (hm 10 0) (hm 10 30) everyDay]"

definition exWeekly :: UnavailableBlock where
  "exWeekly = exRule ''1b9d6bcd-bbfd-4b2d-9b5d-ab8dfbbd4bed'' (hm 12 0) (hm 13 0)
                (Some \<lparr>r_type = weekly, r_days = Some [4]\<rparr>)"

definition exWeeklyBlockId :: string where
  "exWeeklyBlockId = ''unavailable-1b9d6bcd-bbfd-4b2d-9b5d-ab8dfbbd4bed-32400000''"

definition engWeekly :: ScheduleEngine where
  "engWeekly = exEngine [] [exWeekly]"

definition engZero :: ScheduleEngine where
  "engZero = exEngine [exTask ''z'' 0 (hm 11 0) high work] []"

definition engInverted :: ScheduleEngine where
  "engInverted = exEngine [] [exRule ''r'' (hm 12 0) (hm 10 0) everyDay]"

definition engLunchDay :: ScheduleEngine where
  "engLunchDay = snd (generateSchedule 0 0 0 engLunch 0)"

text \<open>An engine whose schedule holds the task \<open>t1\<close> from 9:00 to 10:00.\<close>

definition engPlaced :: ScheduleEngine where
  "engPlaced = engOneTask\<lparr>schedule := [taskBlock (exTask ''t1'' 60 (hm 11 0) high work)
                                          (hm 9 0) (hm 10 0)]\<rparr>"


section \<open>Lemmas on sorting and searching\<close>

lemma sorted_wrt_insort_key_sym:
  assumes sym: "\<And>a b. R a b \<Longrightarrow> R b a"
  shows "sorted_wrt R (insort_key f x xs) \<longleftrightarrow> (\<forall>y\<in>set xs. R x y) \<and> sorted_wrt R xs"
proof (induction xs)
  case Nil
  then show ?case by simp
next
  case (Cons y ys)
  then show ?case using sym by (auto simp: set_insort_key)
qed

lemma sorted_wrt_sort_key_sym:
  assumes sym: "\<And>a b. R a b \<Longrightarrow> R b a"
  shows "sorted_wrt R (sort_key f xs) \<longleftrightarrow> sorted_wrt R xs"
proof (induction xs)
  case Nil
  then show ?case by simp
next
  case (Cons x xs)
  have "sort_key f (x # xs) = insort_key f x (sort_key f xs)"
    by (simp add: sort_key_def)
  then show ?case
    using Cons sorted_wrt_insort_key_sym [of R f x "sort_key f xs", OF sym] by simp
qed

lemma sorted_wrt_conj:
  "sorted_wrt P xs \<Longrightarrow> sorted_wrt Q xs \<Longrightarrow> sorted_wrt (\<lambda>a b. P a b \<and> Q a b) xs"
  by (induction xs) auto

lemma insort_key_cong_on:
  "\<forall>y\<in>set (x # xs). f y = g y \<Longrightarrow> insort_key f x xs = insort_key g x xs"
  by (induction xs) auto

lemma sort_key_cong_on:
  "\<forall>x\<in>set xs. f x = g x \<Longrightarrow> sort_key f xs = sort_key g xs"
proof (induction xs)
  case Nil
  then show ?case by simp
next
  case (Cons x xs)
  then have "sort_key f xs = sort_key g xs" by simp
  moreover have "\<forall>y\<in>set (x # sort_key g xs). f y = g y" using Cons.prems by simp
  ultimately show ?case
    using insort_key_cong_on [of x "sort_key g xs" f g] by (simp add: sort_key_def)
qed

lemma findIndex_None: "findIndex P xs = None \<longleftrightarrow> (\<forall>x\<in>set xs. \<not> P x)"
  by (induction xs) auto

lemma findIndex_Some:
  "findIndex P xs = Some k \<Longrightarrow> k < length xs \<and> P (xs ! k)"
  by (induction xs arbitrary: k) (auto split: if_splits)

lemma slotAfterBlocks_end:
  "slotAfterBlocks d eod ns bs = Some (s, e) \<Longrightarrow> e = s + d * msPerMinute"
  by (induction bs arbitrary: ns) (auto simp: Let_def split: if_splits)

lemma findAvailableSlot_end:
  "findAvailableSlot sched startTime d eod = Some (s, e) \<Longrightarrow> e = s + d * msPerMinute"
  by (auto simp: findAvailableSlot_def Let_def split: if_splits dest: slotAfterBlocks_end)

section \<open>No overlap (C1)\<close>

lemma disjointOrExempt_sym: "disjointOrExempt a b \<Longrightarrow> disjointOrExempt b a"
  by (auto simp: disjointOrExempt_def breakWithUnavailable_def blocksOverlap_def timeSlotsOverlap_def)

lemma blocksOverlap_sym: "blocksOverlap a b \<longleftrightarrow> blocksOverlap b a"
  by (auto simp: blocksOverlap_def timeSlotsOverlap_def)

text \<open>
  \<open>noOverlap\<close> and \<open>noOverlapApartFromBreaks\<close> speak of every two different positions of the
  list, in either order.
\<close>

lemma noOverlap_iff_nth:
  "noOverlap S \<longleftrightarrow>
     (\<forall>i j. i < length S \<longrightarrow> j < length S \<longrightarrow> i \<noteq> j \<longrightarrow> \<not> blocksOverlap (S ! i) (S ! j))"
proof
  assume "noOverlap S"
  then have less: "\<not> blocksOverlap (S ! i) (S ! j)" if "i < j" "j < length S" for i j
    using that by (simp add: noOverlap_def sorted_wrt_iff_nth_less)
  show "\<forall>i j. i < length S \<longrightarrow> j < length S \<longrightarrow> i \<noteq> j \<longrightarrow> \<not> blocksOverlap (S ! i) (S ! j)"
  proof (intro allI impI)
    fix i j assume "i < length S" "j < length S" "i \<noteq> j"
    then consider "i < j" | "j < i" by linarith
    then show "\<not> blocksOverlap (S ! i) (S ! j)"
    proof cases
      case 1
      with \<open>j < length S\<close> show ?thesis by (simp add: less)
    next
      case 2
      with \<open>i < length S\<close> have "\<not> blocksOverlap (S ! j) (S ! i)" by (simp add: less)
      then show ?thesis using blocksOverlap_sym by blast
    qed
  qed
next
  assume "\<forall>i j. i < length S \<longrightarrow> j < length S \<longrightarrow> i \<noteq> j \<longrightarrow> \<not> blocksOverlap (S ! i) (S ! j)"
  then show "noOverlap S"
    by (simp add: noOverlap_def sorted_wrt_iff_nth_less)
qed

lemma noOverlapApartFromBreaks_iff_nth:
  "noOverlapApartFromBreaks S \<longleftrightarrow>
     (\<forall>i j. i < length S \<longrightarrow> j < length S \<longrightarrow> i \<noteq> j \<longrightarrow>
        breakWithUnavailable (S ! i) (S ! j) \<or> \<not> blocksOverlap (S ! i) (S ! j))"
proof
  assume "noOverlapApartFromBreaks S"
  then have less: "disjointOrExempt (S ! i) (S ! j)" if "i < j" "j < length S" for i j
    using that by (simp add: noOverlapApartFromBreaks_def sorted_wrt_iff_nth_less)
  show "\<forall>i j. i < length S \<longrightarrow> j < length S \<longrightarrow> i \<noteq> j \<longrightarrow>
          breakWithUnavailable (S ! i) (S ! j) \<or> \<not> blocksOverlap (S ! i) (S ! j)"
  proof (intro allI impI)
    fix i j assume "i < length S" "j < length S" "i \<noteq> j"
    then consider "i < j" | "j < i" by linarith
    then have "disjointOrExempt (S ! i) (S ! j)"
    proof cases
      case 1
      with \<open>j < length S\<close> show ?thesis by (simp add: less)
    next
      case 2
      with \<open>i < length S\<close> have "disjointOrExempt (S ! j) (S ! i)" by (simp add: less)
      then show ?thesis by (rule disjointOrExempt_sym)
    qed
    then show "breakWithUnavailable (S ! i) (S ! j) \<or> \<not> blocksOverlap (S ! i) (S ! j)"
      by (simp add: disjointOrExempt_def)
  qed
next
  assume "\<forall>i j. i < length S \<longrightarrow> j < length S \<longrightarrow> i \<noteq> j \<longrightarrow>
            breakWithUnavailable (S ! i) (S ! j) \<or> \<not> blocksOverlap (S ! i) (S ! j)"
  then show "noOverlapApartFromBreaks S"
    by (simp add: noOverlapApartFromBreaks_def sorted_wrt_iff_nth_less disjointOrExempt_def)
qed

lemma slotAfterBlocks_ok:
  assumes "sorted_wrt (\<lambda>a b. b_endTime a \<le> b_startTime b) bs"
    and "\<forall>b\<in>set bs. b_startTime b < b_endTime b"
    and "\<forall>b\<in>set bs. ns < b_endTime b"
    and "0 \<le> d"
    and "slotAfterBlocks d eod ns bs = Some (s, e)"
  shows "e = s + d * msPerMinute \<and> ns \<le> s
         \<and> (\<forall>b\<in>set bs. \<not> timeSlotsOverlap s e (b_startTime b) (b_endTime b))"
  using assms
proof (induction bs arbitrary: ns)
  case Nil
  then show ?case by (auto simp: Let_def split: if_splits)
next
  case (Cons b bs)
  show ?case
  proof (cases "ns + d * msPerMinute \<le> b_startTime b")
    case True
    with Cons.prems have se: "s = ns" "e = ns + d * msPerMinute" by (auto simp: Let_def)
    have "\<forall>c\<in>set (b # bs). b_startTime b \<le> b_startTime c"
      using Cons.prems(1,2) by fastforce
    with True se show ?thesis
      by (auto simp: timeSlotsOverlap_def)
  next
    case False
    with Cons.prems have rec: "slotAfterBlocks d eod (b_endTime b) bs = Some (s, e)"
      by (simp add: Let_def)
    have later: "\<forall>c\<in>set bs. b_endTime b < b_endTime c"
      using Cons.prems(1,2) by fastforce
    have chain: "sorted_wrt (\<lambda>a b. b_endTime a \<le> b_startTime b) bs"
      using Cons.prems(1) by simp
    have wf: "\<forall>c\<in>set bs. b_startTime c < b_endTime c"
      using Cons.prems(2) by simp
    note ih = Cons.IH [OF chain wf later Cons.prems(4) rec]
    moreover have "ns < b_endTime b" using Cons.prems(3) by simp
    ultimately show ?thesis
      by (auto simp: timeSlotsOverlap_def)
  qed
qed

lemma findAvailableSlot_ok:
  assumes inv: "schedInv sched cur" and d: "0 \<le> d"
    and res: "findAvailableSlot sched cur d eod = Some (s, e)"
  shows "e = s + d * msPerMinute \<and> cur \<le> s
         \<and> (\<forall>b\<in>set sched. \<not> timeSlotsOverlap s e (b_startTime b) (b_endTime b))"
proof (cases "list_ex (\<lambda>block. timeSlotsOverlap cur (cur + d * msPerMinute)
                                   (b_startTime block) (b_endTime block)) sched")
  case False
  with res have "s = cur" "e = cur + d * msPerMinute"
    by (auto simp: findAvailableSlot_def Let_def split: if_splits)
  with False show ?thesis by (auto simp: list_ex_iff)
next
  case True
  define L where "L = sort_key b_startTime (filter (\<lambda>b. b_endTime b > cur) sched)"
  from True res have run: "slotAfterBlocks d eod cur L = Some (s, e)"
    by (auto simp: findAvailableSlot_def Let_def L_def split: if_splits)
  have setL: "set L = {b \<in> set sched. b_endTime b > cur}"
    by (auto simp: L_def)
  have unav: "\<forall>b\<in>set L. b_type b = unavailable \<and> b_startTime b < b_endTime b"
    using inv setL unfolding schedInv_def by (auto split: if_splits)
  have "sorted_wrt disjointOrExempt (filter (\<lambda>b. b_endTime b > cur) sched)"
    using inv unfolding schedInv_def by (simp add: sorted_wrt_filter)
  then have "sorted_wrt disjointOrExempt L"
    unfolding L_def using sorted_wrt_sort_key_sym [of disjointOrExempt, OF disjointOrExempt_sym]
    by blast
  moreover have "sorted_wrt (\<lambda>a b. b_startTime a \<le> b_startTime b) L"
    unfolding L_def using sorted_sort_key [of b_startTime] by (simp add: sorted_map)
  ultimately have "sorted_wrt (\<lambda>a b. disjointOrExempt a b \<and> b_startTime a \<le> b_startTime b) L"
    by (rule sorted_wrt_conj)
  then have chain: "sorted_wrt (\<lambda>a b. b_endTime a \<le> b_startTime b) L"
  proof (rule sorted_wrt_mono_rel [rotated])
    fix a b assume "a \<in> set L" "b \<in> set L"
      and "disjointOrExempt a b \<and> b_startTime a \<le> b_startTime b"
    with unav show "b_endTime a \<le> b_startTime b"
      by (auto simp: disjointOrExempt_def breakWithUnavailable_def blocksOverlap_def
            timeSlotsOverlap_def)
  qed
  have "\<forall>b\<in>set L. cur < b_endTime b" using setL by simp
  from slotAfterBlocks_ok [OF chain _ this d run] unav
  have ok: "e = s + d * msPerMinute" "cur \<le> s"
    "\<forall>b\<in>set L. \<not> timeSlotsOverlap s e (b_startTime b) (b_endTime b)"
    by auto
  have "\<not> timeSlotsOverlap s e (b_startTime b) (b_endTime b)" if "b \<in> set sched" for b
  proof (cases "b_endTime b > cur")
    case True
    with that setL ok(3) show ?thesis by simp
  next
    case False
    with ok(2) show ?thesis by (simp add: timeSlotsOverlap_def)
  qed
  with ok show ?thesis by simp
qed


lemma schedInv_append:
  assumes inv: "schedInv sched cur"
    and new: "b_type blk \<noteq> unavailable" "b_endTime blk \<le> cur'" "cur \<le> cur'"
    and dis: "\<forall>a\<in>set sched. disjointOrExempt a blk"
  shows "schedInv (sched @ [blk]) cur'"
  using assms unfolding schedInv_def
  by (auto simp: sorted_wrt_append split: if_splits)

lemma breakBeforeTask_inv:
  assumes inv: "schedInv sched cur"
    and cfg: "0 \<le> shortBreakDuration cfg" "0 \<le> longBreakDuration cfg"
    and res: "breakBeforeTask cfg workDay sched cur cwt = (sched1, cur1, cwt1)"
  shows "schedInv sched1 cur1"
proof (cases "sched1 = sched \<and> cur1 = cur")
  case True
  with inv show ?thesis by simp
next
  case False
  define bd where "bd = (if cwt \<ge> longBreakThreshold cfg
                          then longBreakDuration cfg else shortBreakDuration cfg)"
  from False res have eq: "sched1 = sched @ [breakBlock cfg cur (cur + bd * msPerMinute) bd]"
      "cur1 = cur + bd * msPerMinute"
    by (auto simp: breakBeforeTask_def Let_def bd_def split: if_splits)
  have bd: "0 \<le> bd" using cfg by (simp add: bd_def)
  then have le: "cur \<le> cur1" using eq(2) by (simp add: msPerMinute_def)
  have "\<forall>a\<in>set sched. disjointOrExempt a (breakBlock cfg cur (cur + bd * msPerMinute) bd)"
    using inv unfolding schedInv_def
    by (auto simp: disjointOrExempt_def breakWithUnavailable_def blocksOverlap_def
          timeSlotsOverlap_def breakBlock_def split: if_splits)
  moreover have "b_type (breakBlock cfg cur (cur + bd * msPerMinute) bd) \<noteq> unavailable"
    "b_endTime (breakBlock cfg cur (cur + bd * msPerMinute) bd) \<le> cur1"
    using eq(2) by (simp_all add: breakBlock_def)
  ultimately show ?thesis
    unfolding eq(1) using inv le by (simp add: schedInv_append)
qed

lemma scheduleLoop_disjoint:
  assumes "schedInv sched cur"
    and "\<forall>t\<in>set ts. 0 \<le> t_duration t"
    and "0 \<le> shortBreakDuration cfg" "0 \<le> longBreakDuration cfg"
  shows "sorted_wrt disjointOrExempt (scheduleLoop cfg workDay ts sched cur cwt)"
  using assms
proof (induction ts arbitrary: sched cur cwt)
  case Nil
  then show ?case by (simp add: schedInv_def)
next
  case (Cons t ts)
  obtain sched1 cur1 cwt1 where bb: "breakBeforeTask cfg workDay sched cur cwt = (sched1, cur1, cwt1)"
    by (cases "breakBeforeTask cfg workDay sched cur cwt") auto
  have inv1: "schedInv sched1 cur1"
    using breakBeforeTask_inv [OF Cons.prems(1) Cons.prems(3) Cons.prems(4) bb] .
  show ?case
  proof (cases "findAvailableSlot sched1 cur1 (t_duration t) (wd_end workDay)")
    case None
    with bb inv1 show ?thesis by (simp add: schedInv_def)
  next
    case (Some slot)
    obtain s e where slot: "slot = (s, e)" by (cases slot) auto
    have d: "0 \<le> t_duration t" using Cons.prems(2) by simp
    from findAvailableSlot_ok [OF inv1 d Some [unfolded slot]]
    have ok: "e = s + t_duration t * msPerMinute" "cur1 \<le> s"
      "\<forall>b\<in>set sched1. \<not> timeSlotsOverlap s e (b_startTime b) (b_endTime b)"
      by auto
    have se: "s \<le> e" using ok(1) d by (simp add: msPerMinute_def)
    have dis: "\<forall>a\<in>set sched1. disjointOrExempt a (taskBlock t s e)"
      using ok(3)
      by (auto simp: disjointOrExempt_def blocksOverlap_def timeSlotsOverlap_def taskBlock_def)
    have "b_type (taskBlock t s e) \<noteq> unavailable" "b_endTime (taskBlock t s e) \<le> e"
      by (simp_all add: taskBlock_def)
    moreover have "cur1 \<le> e" using ok(2) se by simp
    ultimately have inv2: "schedInv (sched1 @ [taskBlock t s e]) e"
      using inv1 dis by (simp add: schedInv_append)
    have rest: "\<forall>t\<in>set ts. 0 \<le> t_duration t" using Cons.prems(2) by simp
    have ih: "sorted_wrt disjointOrExempt
                (scheduleLoop cfg workDay ts (sched1 @ [taskBlock t s e]) e (cwt1 + t_duration t))"
      using Cons.IH [OF inv2 rest Cons.prems(3) Cons.prems(4)] .
    from inv2 have fin: "sorted_wrt disjointOrExempt (sched1 @ [taskBlock t s e])"
      by (simp add: schedInv_def)
    show ?thesis
      using bb Some slot ih fin by (simp add: Let_def)
  qed
qed

lemma breakBeforeTask_added:
  assumes "breakBeforeTask cfg workDay sched cur cwt = (sched1, cur1, cwt1)"
    and "b \<in> set sched1"
  shows "b \<in> set sched \<or> (b_type b = break \<and> b_task b = None)"
  using assms by (auto simp: breakBeforeTask_def Let_def breakBlock_def split: if_splits)

lemma scheduleLoop_added:
  assumes "b \<in> set (scheduleLoop cfg workDay ts sched cur cwt)"
  shows "b \<in> set sched \<or> (b_type b = break \<and> b_task b = None)
         \<or> (\<exists>t\<in>set ts. \<exists>s. b = taskBlock t s (s + t_duration t * msPerMinute))"
  using assms
proof (induction ts arbitrary: sched cur cwt)
  case Nil
  then show ?case by simp
next
  case (Cons t ts)
  obtain sched1 cur1 cwt1 where bb: "breakBeforeTask cfg workDay sched cur cwt = (sched1, cur1, cwt1)"
    by (cases "breakBeforeTask cfg workDay sched cur cwt") auto
  note old = breakBeforeTask_added [OF bb]
  show ?case
  proof (cases "findAvailableSlot sched1 cur1 (t_duration t) (wd_end workDay)")
    case None
    with Cons.prems bb have "b \<in> set sched1" by simp
    with old show ?thesis by blast
  next
    case (Some slot)
    obtain s e where slot: "slot = (s, e)" by (cases slot) auto
    have e: "e = s + t_duration t * msPerMinute"
      using findAvailableSlot_end Some slot by blast
    from Cons.prems bb Some slot
    have "b \<in> set (sched1 @ [taskBlock t s e])
          \<or> b \<in> set (scheduleLoop cfg workDay ts (sched1 @ [taskBlock t s e]) e
                        (cwt1 + t_duration t))"
      by (auto simp: Let_def split: if_splits)
    then have "b \<in> set (sched1 @ [taskBlock t s e]) \<or> (b_type b = break \<and> b_task b = None)
         \<or> (\<exists>t\<in>set ts. \<exists>s. b = taskBlock t s (s + t_duration t * msPerMinute))"
      using Cons.IH by blast
    then consider "b \<in> set sched1" | "b = taskBlock t s e" | "b_type b = break \<and> b_task b = None"
      | "\<exists>t\<in>set ts. \<exists>s. b = taskBlock t s (s + t_duration t * msPerMinute)"
      by auto
    then show ?thesis
    proof cases
      case 1
      with old show ?thesis by blast
    next
      case 2
      with e show ?thesis by auto
    next
      case 3
      then show ?thesis by simp
    next
      case 4
      then show ?thesis by auto
    qed
  qed
qed

lemma breakAfter_cases:
  assumes "0 \<le> shortBreakDuration cfg" and "0 \<le> longBreakDuration cfg"
  shows "breakAfter cfg cur nxt = []
         \<or> (\<exists>B. breakAfter cfg cur nxt = [B] \<and> b_type B = break \<and> b_task B = None
                \<and> b_startTime B = b_endTime cur
                \<and> b_endTime cur \<le> b_endTime B \<and> b_endTime B \<le> b_startTime nxt)"
proof -
  define gapMs where "gapMs = b_startTime nxt - b_endTime cur"
  define workDuration where
    "workDuration = (case b_task cur of None \<Rightarrow> 0 | Some t \<Rightarrow> t_duration t)"
  define breakMs where "breakMs = (if workDuration \<ge> longBreakThreshold cfg
                     then min (longBreakDuration cfg * msPerMinute) gapMs
                     else min (shortBreakDuration cfg * msPerMinute) gapMs)"
  show ?thesis
  proof (cases "gapMs \<ge> shortBreakDuration cfg * msPerMinute \<and> workDuration \<ge> 60")
    case False
    then have "breakAfter cfg cur nxt = []"
      unfolding breakAfter_def gapMs_def workDuration_def Let_def by (simp only: if_False simp_thms)
    then show ?thesis by simp
  next
    case True
    then have eq: "breakAfter cfg cur nxt =
        [\<lparr>b_id = ''break-'' @ showInt (b_endTime cur), b_type = break,
          b_startTime = b_endTime cur, b_endTime = b_endTime cur + breakMs,
          b_title = (if breakMs = longBreakDuration cfg * msPerMinute
                     then ''Long Break'' else ''Short Break''),
          b_description = Some ''Time to recharge and stay productive'',
          b_taskId = None, b_task = None, b_isFixed = None\<rparr>]"
      unfolding breakAfter_def breakMs_def gapMs_def workDuration_def Let_def
      by (simp only: if_True simp_thms)
    have "0 \<le> breakMs \<and> breakMs \<le> gapMs"
      using True assms unfolding breakMs_def msPerMinute_def by (auto simp: min_def)
    then show ?thesis
      unfolding eq by (simp add: gapMs_def)
  qed
qed

lemma regenerateBreaksLoop_added:
  assumes "b \<in> set (regenerateBreaksLoop cfg T sched)"
  shows "b \<in> set sched \<or> (b_type b = break \<and> b_task b = None)"
  using assms
proof (induction cfg T sched rule: regenerateBreaksLoop.induct)
  case (1 cfg cur nxt rest sched)
  then have "b \<in> set (sched @ breakAfter cfg cur nxt) \<or> (b_type b = break \<and> b_task b = None)"
    by simp
  moreover have "b_type x = break \<and> b_task x = None" if "x \<in> set (breakAfter cfg cur nxt)" for x
    using that by (auto simp: breakAfter_def Let_def split: if_splits)
  ultimately show ?case by auto
qed simp_all

lemma regenerateBreaksLoop_disjoint:
  assumes "sorted_wrt (\<lambda>a b. b_endTime a \<le> b_startTime b) T"
    and "\<forall>b\<in>set T. b_startTime b \<le> b_endTime b"
    and "sorted_wrt disjointOrExempt sched"
    and "\<forall>b\<in>set sched. b_type b \<noteq> unavailable \<longrightarrow>
           (case T of [] \<Rightarrow> True | cur # rest \<Rightarrow> b_endTime b \<le> b_endTime cur \<or> b \<in> set rest)"
    and "0 \<le> shortBreakDuration cfg" and "0 \<le> longBreakDuration cfg"
  shows "sorted_wrt disjointOrExempt (regenerateBreaksLoop cfg T sched)"
  using assms
proof (induction cfg T sched rule: regenerateBreaksLoop.induct)
  case (1 cfg cur nxt rest sched)
  define sched' where "sched' = sched @ breakAfter cfg cur nxt"
  have chain: "sorted_wrt (\<lambda>a b. b_endTime a \<le> b_startTime b) (nxt # rest)"
    and cn: "b_endTime cur \<le> b_startTime nxt"
    and cr: "\<forall>r\<in>set rest. b_endTime nxt \<le> b_startTime r"
    using "1.prems"(1) by auto
  have wf: "\<forall>b\<in>set (nxt # rest). b_startTime b \<le> b_endTime b"
    and wfn: "b_startTime nxt \<le> b_endTime nxt"
    using "1.prems"(2) by auto
  have old: "\<forall>b\<in>set sched. b_type b \<noteq> unavailable \<longrightarrow>
               b_endTime b \<le> b_endTime cur \<or> b = nxt \<or> b \<in> set rest"
    using "1.prems"(4) by auto
  have both: "sorted_wrt disjointOrExempt sched'
      \<and> (\<forall>b\<in>set sched'. b_type b \<noteq> unavailable \<longrightarrow>
            (case nxt # rest of [] \<Rightarrow> True | c # r \<Rightarrow> b_endTime b \<le> b_endTime c \<or> b \<in> set r))"
  proof -
    from breakAfter_cases [OF "1.prems"(5,6), of cur nxt]
    consider "breakAfter cfg cur nxt = []"
      | B where "breakAfter cfg cur nxt = [B]" "b_type B = break"
          "b_startTime B = b_endTime cur" "b_endTime cur \<le> b_endTime B"
          "b_endTime B \<le> b_startTime nxt"
      by blast
    then show ?thesis
    proof cases
      case 1
      with "1.prems"(3) old cn wfn show ?thesis by (auto simp: sched'_def)
    next
      case 2
      have "disjointOrExempt a B" if "a \<in> set sched" for a
      proof (cases "b_type a = unavailable")
        case True
        with 2(2) show ?thesis by (simp add: disjointOrExempt_def breakWithUnavailable_def)
      next
        case False
        with old that consider "b_endTime a \<le> b_endTime cur" | "a = nxt" | "a \<in> set rest"
          by blast
        then show ?thesis
        proof cases
          case 1
          with 2(3) show ?thesis
            by (simp add: disjointOrExempt_def blocksOverlap_def timeSlotsOverlap_def)
        next
          case 2
          with \<open>b_endTime B \<le> b_startTime nxt\<close> show ?thesis
            by (simp add: disjointOrExempt_def blocksOverlap_def timeSlotsOverlap_def)
        next
          case 3
          with cr wfn \<open>b_endTime B \<le> b_startTime nxt\<close> have "b_endTime B \<le> b_startTime a"
            by auto
          then show ?thesis
            by (simp add: disjointOrExempt_def blocksOverlap_def timeSlotsOverlap_def)
        qed
      qed
      with 2 "1.prems"(3) old cn wfn show ?thesis
        by (auto simp: sched'_def sorted_wrt_append)
    qed
  qed
  have "sorted_wrt disjointOrExempt (regenerateBreaksLoop cfg (nxt # rest) sched')"
    using "1.IH" [folded sched'_def, OF chain wf] both "1.prems"(5,6) by blast
  then show ?case by (simp add: sched'_def)
qed simp_all

lemma tasks_chain:
  assumes "sorted_wrt disjointOrExempt S"
    and "\<forall>b\<in>set S. b_type b = task \<longrightarrow> b_startTime b < b_endTime b"
  shows "sorted_wrt (\<lambda>a b. b_endTime a \<le> b_startTime b)
           (sort_key b_startTime (filter (\<lambda>b. b_type b = task) S))"
proof -
  define T where "T = sort_key b_startTime (filter (\<lambda>b. b_type b = task) S)"
  have setT: "set T = {b \<in> set S. b_type b = task}" by (auto simp: T_def)
  have "sorted_wrt disjointOrExempt (filter (\<lambda>b. b_type b = task) S)"
    using assms(1) by (simp add: sorted_wrt_filter)
  then have "sorted_wrt disjointOrExempt T"
    unfolding T_def using sorted_wrt_sort_key_sym [of disjointOrExempt, OF disjointOrExempt_sym]
    by blast
  moreover have "sorted_wrt (\<lambda>a b. b_startTime a \<le> b_startTime b) T"
    unfolding T_def using sorted_sort_key [of b_startTime] by (simp add: sorted_map)
  ultimately have "sorted_wrt (\<lambda>a b. disjointOrExempt a b \<and> b_startTime a \<le> b_startTime b) T"
    by (rule sorted_wrt_conj)
  then have "sorted_wrt (\<lambda>a b. b_endTime a \<le> b_startTime b) T"
  proof (rule sorted_wrt_mono_rel [rotated])
    fix a b assume "a \<in> set T" "b \<in> set T"
      and "disjointOrExempt a b \<and> b_startTime a \<le> b_startTime b"
    with setT assms(2) show "b_endTime a \<le> b_startTime b"
      by (auto simp: disjointOrExempt_def breakWithUnavailable_def blocksOverlap_def
            timeSlotsOverlap_def)
  qed
  then show ?thesis by (simp add: T_def)
qed

lemma regenerateBreaks_ok:
  assumes ok: "scheduleOk S"
    and cfg: "0 \<le> shortBreakDuration cfg" "0 \<le> longBreakDuration cfg"
  shows "scheduleOk (regenerateBreaks cfg S)"
proof -
  define S1 where "S1 = filter (\<lambda>b. b_type b \<noteq> break) S"
  define T where "T = sort_key b_startTime (filter (\<lambda>b. b_type b = task) S1)"
  have res: "regenerateBreaks cfg S = regenerateBreaksLoop cfg T S1"
    by (simp add: regenerateBreaks_def Let_def S1_def T_def)
  from ok have R: "sorted_wrt disjointOrExempt S"
    and wf: "\<forall>b\<in>set S. b_type b = task \<longrightarrow> b_startTime b < b_endTime b"
    and dur: "\<forall>b\<in>set S. case b_task b of None \<Rightarrow> True | Some t \<Rightarrow> 0 < t_duration t"
    by (simp_all add: scheduleOk_def noOverlapApartFromBreaks_def)
  have R1: "sorted_wrt disjointOrExempt S1"
    using R by (simp add: S1_def sorted_wrt_filter)
  have wf1: "\<forall>b\<in>set S1. b_type b = task \<longrightarrow> b_startTime b < b_endTime b"
    using wf by (simp add: S1_def)
  have chain: "sorted_wrt (\<lambda>a b. b_endTime a \<le> b_startTime b) T"
    unfolding T_def by (rule tasks_chain [OF R1 wf1])
  have setT: "set T = {b \<in> set S1. b_type b = task}" by (auto simp: T_def)
  have wfT: "\<forall>b\<in>set T. b_startTime b \<le> b_endTime b"
    using wf1 setT by auto
  have inv: "\<forall>b\<in>set S1. b_type b \<noteq> unavailable \<longrightarrow>
           (case T of [] \<Rightarrow> True | cur # rest \<Rightarrow> b_endTime b \<le> b_endTime cur \<or> b \<in> set rest)"
  proof (intro ballI impI)
    fix b assume "b \<in> set S1" "b_type b \<noteq> unavailable"
    then have "b \<in> set T" unfolding setT S1_def by (cases "b_type b") auto
    then show "case T of [] \<Rightarrow> True | cur # rest \<Rightarrow> b_endTime b \<le> b_endTime cur \<or> b \<in> set rest"
      by (cases T) auto
  qed
  have "sorted_wrt disjointOrExempt (regenerateBreaksLoop cfg T S1)"
    by (rule regenerateBreaksLoop_disjoint [OF chain wfT R1 inv cfg])
  moreover have "b \<in> set S \<or> (b_type b = break \<and> b_task b = None)"
    if "b \<in> set (regenerateBreaksLoop cfg T S1)" for b
    using regenerateBreaksLoop_added [OF that] by (auto simp: S1_def)
  ultimately show ?thesis
    unfolding res scheduleOk_def noOverlapApartFromBreaks_def using wf dur by fastforce
qed


lemma scheduleOk_filter: "scheduleOk S \<Longrightarrow> scheduleOk (filter P S)"
  by (auto simp: scheduleOk_def noOverlapApartFromBreaks_def sorted_wrt_filter)

lemma scheduleOk_sort_key: "scheduleOk (sort_key f S) \<longleftrightarrow> scheduleOk S"
  unfolding scheduleOk_def noOverlapApartFromBreaks_def
  using sorted_wrt_sort_key_sym [of disjointOrExempt f S, OF disjointOrExempt_sym] by simp

lemma generate_ok:
  assumes U: "U = addUnavailableBlocks tz eng (createWorkDay tz (config eng) date) (getDateKey date) []"
    and unav: "\<forall>b\<in>set U. b_type b = unavailable \<and> b_task b = None \<and> b_startTime b < b_endTime b"
    and dis: "noOverlap U"
    and dur: "\<forall>t\<in>set (tasks eng). 0 < t_duration t"
    and cfg: "0 \<le> shortBreakDuration (config eng)" "0 \<le> longBreakDuration (config eng)"
  shows "scheduleOk (fst (generateSchedule tz nowP nowS eng date))
         \<and> scheduleOk (schedule (snd (generateSchedule tz nowP nowS eng date)))"
proof -
  define wd where "wd = createWorkDay tz (config eng) date"
  define ts where "ts = prioritizeTasks nowP (tasks eng)"
  define S where "S = scheduleLoop (config eng) wd ts U (startFrom wd nowS) 0"
  have res: "fst (generateSchedule tz nowP nowS eng date) = sort_key b_startTime S"
    "schedule (snd (generateSchedule tz nowP nowS eng date)) = S"
    by (simp_all add: generateSchedule_def scheduleTasks_def Let_def S_def ts_def wd_def U)
  have "sorted_wrt disjointOrExempt U"
    using dis unfolding noOverlap_def
    by (rule sorted_wrt_mono_rel [rotated]) (simp add: disjointOrExempt_def)
  then have inv: "schedInv U (startFrom wd nowS)"
    using unav by (simp add: schedInv_def)
  have dur': "\<forall>t\<in>set ts. 0 < t_duration t"
    using dur by (simp add: ts_def prioritizeTasks_def)
  then have dur0: "\<forall>t\<in>set ts. 0 \<le> t_duration t" by auto
  have R: "sorted_wrt disjointOrExempt S"
    unfolding S_def by (rule scheduleLoop_disjoint [OF inv dur0 cfg])
  have shape: "(b_type b = task \<longrightarrow> b_startTime b < b_endTime b)
        \<and> (case b_task b of None \<Rightarrow> True | Some t \<Rightarrow> 0 < t_duration t)" if "b \<in> set S" for b
  proof -
    from scheduleLoop_added [OF that [unfolded S_def]]
    consider "b \<in> set U" | "b_type b = break \<and> b_task b = None"
      | t s where "t \<in> set ts" "b = taskBlock t s (s + t_duration t * msPerMinute)"
      by blast
    then show ?thesis
    proof cases
      case 1
      with unav show ?thesis by auto
    next
      case 2
      then show ?thesis by simp
    next
      case 3
      with dur' show ?thesis by (auto simp: taskBlock_def msPerMinute_def)
    qed
  qed
  have "scheduleOk S"
    unfolding scheduleOk_def noOverlapApartFromBreaks_def using R shape by blast
  then show ?thesis
    unfolding res by (simp add: scheduleOk_sort_key)
qed

lemma reschedule_ok:
  assumes ok: "scheduleOk (schedule eng)"
    and cfg: "0 \<le> shortBreakDuration (config eng)" "0 \<le> longBreakDuration (config eng)"
  shows "scheduleOk (fst (rescheduleTask eng taskId newStart))
         \<and> schedule (snd (rescheduleTask eng taskId newStart))
             = fst (rescheduleTask eng taskId newStart)"
proof (cases "rescheduleTask eng taskId newStart = (schedule eng, eng)")
  case True
  with ok show ?thesis by simp
next
  case False
  then obtain blk t where found: "find (\<lambda>b. b_taskId b = Some taskId) (schedule eng) = Some blk"
    and t: "b_task blk = Some t"
    by (auto simp: rescheduleTask_def split: option.splits)
  define newEnd where "newEnd = newStart + t_duration t * msPerMinute"
  define S1 where "S1 = filter (\<lambda>b. b_taskId b \<noteq> Some taskId) (schedule eng)"
  define S2 where "S2 = S1 @ [taskBlock t newStart newEnd]"
  from False found t have avail: "isSlotAvailable (schedule eng) newStart newEnd taskId"
    and res: "rescheduleTask eng taskId newStart
              = (regenerateBreaks (config eng) S2,
                 eng\<lparr>schedule := regenerateBreaks (config eng) S2\<rparr>)"
    by (auto simp: rescheduleTask_def Let_def newEnd_def S1_def S2_def split: if_splits)
  have "blk \<in> set (schedule eng)"
    using found by (auto simp: find_Some_iff)
  with ok t have pos: "0 < t_duration t"
    by (fastforce simp: scheduleOk_def)
  have ok1: "scheduleOk S1" unfolding S1_def by (rule scheduleOk_filter [OF ok])
  have free: "disjointOrExempt a (taskBlock t newStart newEnd)" if "a \<in> set S1" for a
  proof -
    from that have "a \<in> set (schedule eng)" "b_taskId a \<noteq> Some taskId" by (auto simp: S1_def)
    with avail have "\<not> timeSlotsOverlap newStart newEnd (b_startTime a) (b_endTime a)"
      by (auto simp: isSlotAvailable_def list_ex_iff split: if_splits)
    then show ?thesis
      by (auto simp: disjointOrExempt_def blocksOverlap_def timeSlotsOverlap_def taskBlock_def)
  qed
  have "scheduleOk S2"
    using ok1 free pos unfolding S2_def scheduleOk_def noOverlapApartFromBreaks_def
    by (auto simp: sorted_wrt_append taskBlock_def newEnd_def msPerMinute_def)
  then have "scheduleOk (regenerateBreaks (config eng) S2)"
    by (rule regenerateBreaks_ok [OF _ cfg])
  then show ?thesis by (simp add: res)
qed

lemma delete_ok:
  assumes ok: "scheduleOk (schedule eng)"
    and cfg: "0 \<le> shortBreakDuration (config eng)" "0 \<le> longBreakDuration (config eng)"
    and kind: "\<not> startsWith blockId ''ad-hoc-''" "\<not> startsWith blockId ''unavailable-''"
  shows "scheduleOk (fst (deleteTimeBlock tz nowP nowS eng blockId))
         \<and> schedule (snd (deleteTimeBlock tz nowP nowS eng blockId))
             = fst (deleteTimeBlock tz nowP nowS eng blockId)"
proof (cases "find (\<lambda>b. b_id b = blockId) (schedule eng)")
  case None
  with ok show ?thesis by (simp add: deleteTimeBlock_def)
next
  case (Some block)
  define S1 where "S1 = filter (\<lambda>b. b_id b \<noteq> blockId) (schedule eng)"
  have ok1: "scheduleOk S1" unfolding S1_def by (rule scheduleOk_filter [OF ok])
  have ok2: "scheduleOk (regenerateBreaks (config eng) S1)"
    by (rule regenerateBreaks_ok [OF ok1 cfg])
  show ?thesis
    using Some kind ok1 ok2 by (simp add: deleteTimeBlock_def Let_def S1_def)
qed

text \<open>
  C1 (amended). \<open>scheduleOk\<close> is kept by the operations of the engine, for a configuration
  whose two break lengths are not negative. It holds of the Schedule returned by
  \<open>generateSchedule\<close> (and of the list left in the engine) when the unavailable blocks
  materialised for the day are of kind unavailable with start before end and do not
  overlap one another, and every task has a positive duration; \<open>addUnavailableTime\<close> and
  the deletion of an unavailable block return such a regeneration. \<open>rescheduleTask\<close> and
  the deletion of a task or break block keep it. So in these Schedules no two blocks at
  different positions overlap under the strict test, except possibly a break paired with
  an unavailable block.
\<close>

theorem engine_operations_keep_blocks_disjoint:
  assumes "0 \<le> shortBreakDuration (config eng)" and "0 \<le> longBreakDuration (config eng)"
  shows "((\<forall>b\<in>set (addUnavailableBlocks tz eng (createWorkDay tz (config eng) date)
                      (getDateKey date) []).
             b_type b = unavailable \<and> b_task b = None \<and> b_startTime b < b_endTime b)
          \<and> noOverlap (addUnavailableBlocks tz eng (createWorkDay tz (config eng) date)
                         (getDateKey date) [])
          \<and> (\<forall>t\<in>set (tasks eng). 0 < t_duration t)
          \<longrightarrow> scheduleOk (fst (generateSchedule tz nowP nowS eng date))
              \<and> scheduleOk (schedule (snd (generateSchedule tz nowP nowS eng date))))
         \<and> (scheduleOk (schedule eng)
          \<longrightarrow> scheduleOk (fst (rescheduleTask eng taskId newStart))
              \<and> schedule (snd (rescheduleTask eng taskId newStart))
                  = fst (rescheduleTask eng taskId newStart))
         \<and> (scheduleOk (schedule eng)
            \<and> \<not> startsWith blockId ''ad-hoc-'' \<and> \<not> startsWith blockId ''unavailable-''
          \<longrightarrow> scheduleOk (fst (deleteTimeBlock tz nowP nowS eng blockId))
              \<and> schedule (snd (deleteTimeBlock tz nowP nowS eng blockId))
                  = fst (deleteTimeBlock tz nowP nowS eng blockId))"
  using generate_ok [OF refl _ _ _ assms] reschedule_ok [OF _ assms] delete_ok [OF _ assms]
  by blast

theorem engine_operations_keep_blocks_disjoint_witness:
  "0 \<le> shortBreakDuration (config engLunch) \<and> 0 \<le> longBreakDuration (config engLunch)
   \<and> list_all (\<lambda>b. b_type b = unavailable \<and> b_task b = None \<and> b_startTime b < b_endTime b)
        (addUnavailableBlocks 0 engLunch (createWorkDay 0 (config engLunch) 0) (getDateKey 0) [])
   \<and> noOverlap (addUnavailableBlocks 0 engLunch (createWorkDay 0 (config engLunch) 0) (getDateKey 0) [])
   \<and> list_all (\<lambda>t. 0 < t_duration t) (tasks engLunch)
   \<and> blockTimes (fst (generateSchedule 0 0 0 engLunch 0))
       = [(task, hm 9 0, hm 10 0), (task, hm 10 0, hm 10 30), (unavailable, hm 12 0, hm 13 0)]
   \<and> scheduleOk (fst (generateSchedule 0 0 0 engLunch 0))
   \<and> scheduleOk (schedule engLunchDay)
   \<and> blockTimes (fst (rescheduleTask engLunchDay ''t2'' (hm 14 0)))
       = [(unavailable, hm 12 0, hm 13 0), (task, hm 9 0, hm 10 0), (task, hm 14 0, hm 14 30),
          (break, hm 10 0, hm 10 15)]
   \<and> scheduleOk (fst (rescheduleTask engLunchDay ''t2'' (hm 14 0)))
   \<and> \<not> startsWith ''task-t2-36000000'' ''ad-hoc-''
   \<and> \<not> startsWith ''task-t2-36000000'' ''unavailable-''
   \<and> blockTimes (fst (deleteTimeBlock 0 0 0 engLunchDay ''task-t2-36000000''))
       = [(unavailable, hm 12 0, hm 13 0), (task, hm 9 0, hm 10 0)]
   \<and> scheduleOk (fst (deleteTimeBlock 0 0 0 engLunchDay ''task-t2-36000000''))"
proof -
  have short: "0 \<le> shortBreakDuration (config engLunchDay)"
    by code_simp
  have long: "0 \<le> longBreakDuration (config engLunchDay)"
    by code_simp
  have short0: "0 \<le> shortBreakDuration (config engLunch)"
    by code_simp
  have long0: "0 \<le> longBreakDuration (config engLunch)"
    by code_simp
  have unav: "\<forall>b\<in>set (addUnavailableBlocks 0 engLunch (createWorkDay 0 (config engLunch) 0)
                         (getDateKey 0) []).
                b_type b = unavailable \<and> b_task b = None \<and> b_startTime b < b_endTime b"
    by code_simp
  have dis: "noOverlap (addUnavailableBlocks 0 engLunch (createWorkDay 0 (config engLunch) 0)
                          (getDateKey 0) [])"
    by code_simp
  have dur: "\<forall>t\<in>set (tasks engLunch). 0 < t_duration t"
    by code_simp
  have times: "blockTimes (fst (generateSchedule 0 0 0 engLunch 0))
       = [(task, hm 9 0, hm 10 0), (task, hm 10 0, hm 10 30), (unavailable, hm 12 0, hm 13 0)]"
    by code_simp
  have moved: "blockTimes (fst (rescheduleTask engLunchDay ''t2'' (hm 14 0)))
       = [(unavailable, hm 12 0, hm 13 0), (task, hm 9 0, hm 10 0), (task, hm 14 0, hm 14 30),
          (break, hm 10 0, hm 10 15)]"
    by code_simp
  have kind: "\<not> startsWith ''task-t2-36000000'' ''ad-hoc-''"
    "\<not> startsWith ''task-t2-36000000'' ''unavailable-''"
    by code_simp+
  have deleted: "blockTimes (fst (deleteTimeBlock 0 0 0 engLunchDay ''task-t2-36000000''))
       = [(unavailable, hm 12 0, hm 13 0), (task, hm 9 0, hm 10 0)]"
    by code_simp
  from engine_operations_keep_blocks_disjoint [OF short0 long0, of 0 0 0 0] unav dis dur
  have gen: "scheduleOk (fst (generateSchedule 0 0 0 engLunch 0))"
    "scheduleOk (schedule engLunchDay)"
    unfolding engLunchDay_def by blast+
  from engine_operations_keep_blocks_disjoint [OF short long, of 0 0 0 0 "''t2''" "hm 14 0"
      "''task-t2-36000000''"] gen(2) kind
  have ops: "scheduleOk (fst (rescheduleTask engLunchDay ''t2'' (hm 14 0)))"
    "scheduleOk (fst (deleteTimeBlock 0 0 0 engLunchDay ''task-t2-36000000''))"
    by blast+
  from short0 long0 unav dis dur times gen moved ops kind deleted
  show ?thesis by (simp add: list_all_iff)
qed

text \<open>
  The claim as stated fails. In the earlier engine \<open>addUnavailableTime\<close> appends its block
  without a conflict check: with a task placed from 9:00 to 10:00, blocking 9:30 to 10:30
  returns a schedule in which the two overlap. In the later engine two daily rules 10:00
  to 12:00 and 11:00 to 13:00 are both materialised by \<open>generateSchedule\<close>, and the two
  unavailable blocks overlap.
\<close>

theorem no_overlap_counterexample:
  "blockTimes (schedule engPlaced) = [(task, hm 9 0, hm 10 0)]
   \<and> noOverlap (schedule engPlaced)
   \<and> blockTimes (fst (addUnavailableTime_v0 engPlaced (hm 9 30) (hm 10 30) ''Meeting'' None))
       = [(task, hm 9 0, hm 10 0), (unavailable, hm 9 30, hm 10 30)]
   \<and> \<not> noOverlap (fst (addUnavailableTime_v0 engPlaced (hm 9 30) (hm 10 30) ''Meeting'' None))
   \<and> blockTimes (fst (generateSchedule 0 0 0 engTwoRules 0))
       = [(unavailable, hm 10 0, hm 12 0), (unavailable, hm 11 0, hm 13 0)]
   \<and> \<not> noOverlap (fst (generateSchedule 0 0 0 engTwoRules 0))"
  by code_simp

text \<open>
  The exemption of the amended statement is needed: \<open>scheduleTasks\<close> places a break at
  \<open>currentTime\<close> and checks only the end of the working day. After a 90-minute task from
  9:00 the break from 10:30 to 10:45 is placed over the unavailable block from 10:30 to
  11:00, while the next task is moved behind that block.
\<close>

lemma generate_break_over_unavailable:
  "blockTimes (fst (generateSchedule 0 0 0 engCall 0))
     = [(task, hm 9 0, hm 10 30), (unavailable, hm 10 30, hm 11 0),
        (break, hm 10 30, hm 10 45), (task, hm 11 0, hm 11 30)]
   \<and> \<not> noOverlap (fst (generateSchedule 0 0 0 engCall 0))
   \<and> scheduleOk (fst (generateSchedule 0 0 0 engCall 0))"
  by code_simp

section \<open>Rescheduling a task (C2)\<close>

text \<open>
  On a conflict with a block that does not carry the task's id both versions of
  \<open>rescheduleTask\<close> return the schedule they were given.
\<close>

lemma reschedule_conflict_noop:
  assumes "find (\<lambda>b. b_taskId b = Some taskId) (schedule eng) = Some blk"
    and "b_task blk = Some t"
    and "b \<in> set (schedule eng)" and "b_taskId b \<noteq> Some taskId"
    and "timeSlotsOverlap newStart (newStart + t_duration t * msPerMinute)
           (b_startTime b) (b_endTime b)"
  shows "rescheduleTask eng taskId newStart = (schedule eng, eng)"
proof -
  have "\<not> isSlotAvailable (schedule eng) newStart (newStart + t_duration t * msPerMinute) taskId"
    unfolding isSlotAvailable_def list_ex_iff using assms(3,4,5) by auto
  then show ?thesis
    using assms(1,2) by (simp add: rescheduleTask_def Let_def)
qed

lemma reschedule_tt_conflict_noop:
  assumes "findIndex (\<lambda>b. b_taskId b = Some taskId) S = Some k"
    and "j < length S" and "j \<noteq> k"
    and "slotsOverlap newStart (newStart + (b_endTime (S ! k) - b_startTime (S ! k)))
           (b_startTime (S ! j)) (b_endTime (S ! j))"
  shows "rescheduleTask_tt taskId newStart S = S"
proof -
  have "(j, S ! j) \<in> set (enumerate 0 S)"
    using assms(2) by (simp add: in_set_enumerate_eq)
  then have "list_ex (\<lambda>(index, block). index \<noteq> k
        \<and> slotsOverlap newStart (newStart + (b_endTime (S ! k) - b_startTime (S ! k)))
            (b_startTime block) (b_endTime block)) (enumerate 0 S)"
    unfolding list_ex_iff using assms(3,4) by blast
  then show ?thesis
    using assms(1) by (simp add: rescheduleTask_tt_def Let_def)
qed

text \<open>
  The TimetableScheduler's \<open>rescheduleTask\<close> replaces the block in place: the schedule
  keeps its length, and two positions that overlap afterwards overlapped before.
\<close>

lemma reschedule_tt_no_new_overlap:
  assumes "i < length S" and "j < length S" and "i \<noteq> j"
    and "blocksOverlap (rescheduleTask_tt taskId newStart S ! i)
           (rescheduleTask_tt taskId newStart S ! j)"
  shows "blocksOverlap (S ! i) (S ! j)"
proof (cases "rescheduleTask_tt taskId newStart S = S")
  case True
  with assms(4) show ?thesis by simp
next
  case False
  then obtain k where k: "findIndex (\<lambda>b. b_taskId b = Some taskId) S = Some k"
    by (auto simp: rescheduleTask_tt_def split: option.splits)
  define newEnd where "newEnd = newStart + (b_endTime (S ! k) - b_startTime (S ! k))"
  define blk where "blk = (S ! k)\<lparr>b_startTime := newStart, b_endTime := newEnd,
      b_task := map_option (\<lambda>t. t\<lparr>t_scheduledTime := Some newStart\<rparr>) (b_task (S ! k))\<rparr>"
  from False k have free: "\<not> list_ex (\<lambda>(index, block). index \<noteq> k
        \<and> slotsOverlap newStart newEnd (b_startTime block) (b_endTime block)) (enumerate 0 S)"
    and res: "rescheduleTask_tt taskId newStart S = S[k := blk]"
    by (auto simp: rescheduleTask_tt_def Let_def newEnd_def blk_def split: if_splits)
  have other: "\<not> slotsOverlap newStart newEnd (b_startTime (S ! m)) (b_endTime (S ! m))"
    if "m < length S" "m \<noteq> k" for m
  proof -
    have "(m, S ! m) \<in> set (enumerate 0 S)" using that(1) by (simp add: in_set_enumerate_eq)
    with free that(2) show ?thesis unfolding list_ex_iff by blast
  qed
  have klen: "k < length S" using findIndex_Some [OF k] by simp
  consider "i = k" | "j = k" | "i \<noteq> k" "j \<noteq> k" by blast
  then show ?thesis
  proof cases
    case 1
    with assms(1,3) klen have "S[k := blk] ! i = blk" "S[k := blk] ! j = S ! j" by simp_all
    with assms(4) res other [OF assms(2)] 1 assms(3) show ?thesis
      by (auto simp: blocksOverlap_def timeSlotsOverlap_def slotsOverlap_def blk_def)
  next
    case 2
    with assms(2,3) klen have "S[k := blk] ! j = blk" "S[k := blk] ! i = S ! i" by simp_all
    with assms(4) res other [OF assms(1)] 2 assms(3) show ?thesis
      by (auto simp: blocksOverlap_def timeSlotsOverlap_def slotsOverlap_def blk_def)
  next
    case 3
    with assms(4) res show ?thesis by simp
  qed
qed

text \<open>
  C2, at a failing input. The generated schedule holds the unavailable block 10:00 to
  10:30, task \<open>t1\<close> 9:00 to 10:00 and task \<open>t2\<close> 10:30 to 11:00, with no overlap. Moving
  \<open>t2\<close> to the free slot 11:00 succeeds, and \<open>regenerateBreaks\<close> then fills the gap after
  \<open>t1\<close> with a break 10:00 to 10:15 without looking at the unavailable block: the returned
  schedule has an overlap that the schedule before the call did not have.
\<close>

theorem reschedule_new_overlap:
  "blockTimes (schedule (snd (generateSchedule 0 0 0 engStandup 0)))
     = [(unavailable, hm 10 0, hm 10 30), (task, hm 9 0, hm 10 0), (task, hm 10 30, hm 11 0)]
   \<and> noOverlap (schedule (snd (generateSchedule 0 0 0 engStandup 0)))
   \<and> blockTimes (fst (rescheduleTask (snd (generateSchedule 0 0 0 engStandup 0)) ''t2'' (hm 11 0)))
     = [(unavailable, hm 10 0, hm 10 30), (task, hm 9 0, hm 10 0), (task, hm 11 0, hm 11 30),
        (break, hm 10 0, hm 10 15)]
   \<and> \<not> noOverlap (fst (rescheduleTask (snd (generateSchedule 0 0 0 engStandup 0)) ''t2'' (hm 11 0)))"
  by code_simp

section \<open>Determinism of generation (C3)\<close>

text \<open>
  C3 (amended). \<open>generateSchedule\<close> reads the clock twice: for the urgency scores and for
  the start anchor of \<open>scheduleTasks\<close>. Two runs on the same engine state and date return
  the same Schedule (and leave the same engine state) whenever the clock readings give every
  task the same urgency score and give the same anchor, which is the case when both
  readings fall outside the working window of the day and no task changes its deadline
  band between them.
\<close>

theorem generate_deterministic_for_equal_bands:
  assumes "\<forall>t\<in>set (tasks eng). getUrgencyScore nowP t = getUrgencyScore nowP' t"
    and "startFrom (createWorkDay tz (config eng) date) nowS
         = startFrom (createWorkDay tz (config eng) date) nowS'"
  shows "generateSchedule tz nowP nowS eng date = generateSchedule tz nowP' nowS' eng date"
proof -
  have "prioritizeTasks nowP (tasks eng) = prioritizeTasks nowP' (tasks eng)"
    unfolding prioritizeTasks_def using assms(1) by (intro sort_key_cong_on) simp
  then show ?thesis
    using assms(2) by (simp add: generateSchedule_def scheduleTasks_def Let_def)
qed

theorem generate_deterministic_for_equal_bands_witness:
  "list_all (\<lambda>t. getUrgencyScore 0 t = getUrgencyScore (hm 1 0) t) (tasks engLunch)
   \<and> startFrom (createWorkDay 0 (config engLunch) 0) 0
       = startFrom (createWorkDay 0 (config engLunch) 0) (hm 1 0)
   \<and> generateSchedule 0 0 0 engLunch 0 = generateSchedule 0 (hm 1 0) (hm 1 0) engLunch 0"
proof -
  have scores: "\<forall>t\<in>set (tasks engLunch). getUrgencyScore 0 t = getUrgencyScore (hm 1 0) t"
    by code_simp
  have anchor: "startFrom (createWorkDay 0 (config engLunch) 0) 0
       = startFrom (createWorkDay 0 (config engLunch) 0) (hm 1 0)"
    by code_simp
  from generate_deterministic_for_equal_bands [OF scores anchor] scores anchor
  show ?thesis by (simp add: list_all_iff)
qed

text \<open>
  The claim as stated fails: with the same task, no rules and the same date, a run at
  midnight places the task at 9:00 and a run at 9:01 places it at 9:05.
\<close>

theorem generate_determinism_counterexample:
  "blockTimes (fst (generateSchedule 0 0 0 engOneTask 0)) = [(task, hm 9 0, hm 10 0)]
   \<and> blockTimes (fst (generateSchedule 0 (hm 9 1) (hm 9 1) engOneTask 0))
       = [(task, hm 9 5, hm 10 5)]
   \<and> map b_id (fst (generateSchedule 0 0 0 engOneTask 0))
       \<noteq> map b_id (fst (generateSchedule 0 (hm 9 1) (hm 9 1) engOneTask 0))"
  by code_simp

section \<open>Length of an allocated interval (C4)\<close>

lemma makeSlots_nth:
  "i < length (makeSlots c dayEnd) \<Longrightarrow>
     s_start (makeSlots c dayEnd ! i) = c + int i * (30 * msPerMinute)
     \<and> s_end (makeSlots c dayEnd ! i) = c + (int i + 1) * (30 * msPerMinute)"
proof (induction c dayEnd arbitrary: i rule: makeSlots.induct)
  case (1 current dayEnd)
  show ?case
  proof (cases "current < dayEnd")
    case False
    with "1.prems" show ?thesis by (simp add: makeSlots.simps)
  next
    case True
    show ?thesis
    proof (cases i)
      case 0
      with True show ?thesis by (subst (1 2) makeSlots.simps) simp
    next
      case (Suc j)
      with True "1.prems" have "j < length (makeSlots (current + 30 * msPerMinute) dayEnd)"
        by (subst (asm) makeSlots.simps) simp
      from "1.IH" [OF True this] Suc True show ?thesis
        by (subst (1 2) makeSlots.simps) (simp add: algebra_simps)
    qed
  qed
qed

lemma markUnavailable_length: "length (markUnavailable timetable slots) = length slots"
  unfolding markUnavailable_def by (induction timetable arbitrary: slots) auto

lemma markUnavailable_nth:
  "i < length slots \<Longrightarrow>
     s_start (markUnavailable timetable slots ! i) = s_start (slots ! i)
     \<and> s_end (markUnavailable timetable slots ! i) = s_end (slots ! i)"
  unfolding markUnavailable_def by (induction timetable arbitrary: slots) auto

lemma findRun_some:
  assumes "findRun slots r i = Inr (Some (s, e))" and "0 < r" and "0 \<le> i"
  shows "\<exists>j. j + nat r \<le> length slots
             \<and> s = s_start (slots ! j) \<and> e = s_end (slots ! (j + nat r - 1))"
  using assms
proof (induction slots r i rule: findRun.induct)
  case (1 slots r i)
  from "1.prems" have inrange: "i \<le> int (length slots) - r"
    by (subst (asm) findRun.simps) (auto split: if_splits)
  define cs where "cs = jsSlice slots i (i + r)"
  have cs: "cs = take (nat r) (drop (nat i) slots)"
    using inrange "1.prems"(2,3) by (auto simp: cs_def jsSlice_def Let_def min_def)
  have len: "nat i + nat r \<le> length slots" using inrange "1.prems"(2,3) by linarith
  then have lcs: "length cs = nat r" by (simp add: cs)
  show ?case
  proof (cases "list_all s_available cs")
    case False
    with "1.prems" inrange have "findRun slots r (i + 1) = Inr (Some (s, e))"
      by (subst (asm) findRun.simps) (simp add: cs_def Let_def)
    from "1.IH" [OF inrange refl False [unfolded cs_def] this] "1.prems"(2,3)
    show ?thesis unfolding cs_def by simp
  next
    case True
    have ne: "cs \<noteq> []" using lcs "1.prems"(2) by auto
    with True "1.prems" inrange have se: "s = s_start (hd cs)" "e = s_end (last cs)"
      by (subst (asm) findRun.simps, simp add: cs_def [symmetric] Let_def split: list.splits)+
    have "hd cs = slots ! nat i"
      using ne len "1.prems"(2) by (simp add: cs hd_conv_nth)
    moreover have "last cs = slots ! (nat i + nat r - 1)"
      using ne len lcs "1.prems"(2) by (simp add: last_conv_nth cs)
    ultimately have "nat i + nat r \<le> length slots \<and> s = s_start (slots ! nat i)
        \<and> e = s_end (slots ! (nat i + nat r - 1))"
      using se len by simp
    then show ?thesis by (rule exI [of _ "nat i"])
  qed
qed

lemma ceilDiv_bounds: "d \<le> ceilDiv d 30 * 30 \<and> ceilDiv d 30 * 30 < d + 30"
  unfolding ceilDiv_def by presburger

lemma findAvailableSlot_tt1_length:
  assumes "0 < duration"
    and "findAvailableSlot_tt1 tz timetable duration date = Inr (Some (s, e))"
  shows "e = s + ceilDiv duration 30 * 30 * msPerMinute"
proof -
  define slots0 where "slots0 = makeSlots (setHours tz date tt_dayStart 0) (setHours tz date tt_dayEnd 0)"
  define slots where "slots = markUnavailable timetable slots0"
  define r where "r = ceilDiv duration 30"
  have r: "0 < r" using assms(1) ceilDiv_bounds [of duration] by (simp add: r_def)
  from assms(2) have "findRun slots r 0 = Inr (Some (s, e))"
    by (simp add: findAvailableSlot_tt1_def Let_def slots_def slots0_def r_def)
  from findRun_some [OF this r] obtain j where j: "j + nat r \<le> length slots"
    "s = s_start (slots ! j)" "e = s_end (slots ! (j + nat r - 1))" by auto
  have len: "length slots = length slots0" by (simp add: slots_def markUnavailable_length)
  have j1: "j < length slots0" and j2: "j + nat r - 1 < length slots0"
    using j(1) r len by auto
  have "s = s_start (slots0 ! j)"
    using j(2) markUnavailable_nth [OF j1] by (simp add: slots_def)
  moreover have "e = s_end (slots0 ! (j + nat r - 1))"
    using j(3) markUnavailable_nth [OF j2] by (simp add: slots_def)
  ultimately have diff: "e - s = (int (j + nat r - 1) + 1 - int j) * (30 * msPerMinute)"
    using makeSlots_nth [OF j1 [unfolded slots0_def]] makeSlots_nth [OF j2 [unfolded slots0_def]]
    by (simp add: slots0_def algebra_simps)
  have "int (j + nat r - 1) + 1 - int j = r" using r by linarith
  with diff have "e - s = r * (30 * msPerMinute)" by (simp only:)
  then show ?thesis by (simp add: r_def algebra_simps)
qed

text \<open>
  C4 (amended). The slot-grid allocator of the TimetableScheduler (first version; the
  second returns the same first-start and last-end of the run it finds) gives a task of
  positive duration an interval of exactly \<open>ceil(duration / 30)\<close> slots of 30 minutes, so
  the interval is at least as long as the task and less than 30 minutes longer. The
  allocator of the ScheduleEngine has no slot grid: the interval it returns is exactly as
  long as the task.
\<close>

theorem allocated_interval_length:
  "(0 < duration \<and> findAvailableSlot_tt1 tz timetable duration date = Inr (Some (s, e))
      \<longrightarrow> e = s + ceilDiv duration 30 * 30 * msPerMinute
          \<and> duration * msPerMinute \<le> e - s
          \<and> e - s < (duration + 30) * msPerMinute)
   \<and> (findAvailableSlot sched startTime duration' endOfDay = Some (s', e')
      \<longrightarrow> e' = s' + duration' * msPerMinute)"
proof (intro conjI impI)
  assume a: "0 < duration \<and> findAvailableSlot_tt1 tz timetable duration date = Inr (Some (s, e))"
  then show len: "e = s + ceilDiv duration 30 * 30 * msPerMinute"
    using findAvailableSlot_tt1_length by blast
  show "duration * msPerMinute \<le> e - s"
    using len ceilDiv_bounds [of duration] by (simp add: msPerMinute_def)
  show "e - s < (duration + 30) * msPerMinute"
    using len ceilDiv_bounds [of duration] by (simp add: msPerMinute_def)
next
  assume "findAvailableSlot sched startTime duration' endOfDay = Some (s', e')"
  then show "e' = s' + duration' * msPerMinute"
    by (rule findAvailableSlot_end)
qed

theorem allocated_interval_length_witness:
  "0 < (45::int)
   \<and> findAvailableSlot_tt1 0 [] 45 0 = Inr (Some (hm 6 0, hm 7 0))
   \<and> hm 7 0 = hm 6 0 + ceilDiv 45 30 * 30 * msPerMinute
   \<and> 45 * msPerMinute \<le> hm 7 0 - hm 6 0
   \<and> hm 7 0 - hm 6 0 < (45 + 30) * msPerMinute
   \<and> findAvailableSlot [] (hm 9 0) 45 (hm 17 0) = Some (hm 9 0, hm 9 45)
   \<and> hm 9 45 = hm 9 0 + 45 * msPerMinute"
proof -
  have grid: "findAvailableSlot_tt1 0 [] 45 0 = Inr (Some (hm 6 0, hm 7 0))"
    by code_simp
  have cont: "findAvailableSlot [] (hm 9 0) 45 (hm 17 0) = Some (hm 9 0, hm 9 45)"
    by code_simp
  have pos: "0 < (45::int)"
    by simp
  from allocated_interval_length [where duration = 45 and tz = 0 and timetable = "[]"
      and date = 0 and s = "hm 6 0" and e = "hm 7 0" and sched = "[]" and startTime = "hm 9 0"
      and duration' = 45 and endOfDay = "hm 17 0" and s' = "hm 9 0" and e' = "hm 9 45"]
    grid cont pos
  show ?thesis by blast
qed

text \<open>
  The claim as stated fails on the ScheduleEngine: a 45-minute task is given the interval
  9:00 to 9:45, which is not \<open>ceil(45 / 30) * 30 = 60\<close> minutes long and not longer than
  the task.
\<close>

theorem allocated_interval_length_counterexample:
  "findAvailableSlot [] (hm 9 0) 45 (hm 17 0) = Some (hm 9 0, hm 9 45)
   \<and> hm 9 45 \<noteq> hm 9 0 + ceilDiv 45 30 * 30 * msPerMinute
   \<and> blockTimes (fst (generateSchedule 0 0 0 engShort 0)) = [(task, hm 9 0, hm 9 45)]"
  by code_simp

section \<open>Ranking (C5)\<close>

text \<open>
  C5. Two tasks with the same priority, category and duration, the first with the strictly
  earlier deadline: the first task's urgency score is at least the second's, for every
  reading \<open>now\<close> of the clock. This holds for \<open>getUrgencyScore\<close> (both engines and the first
  TimetableScheduler) and for \<open>getBalancedScore\<close> (second TimetableScheduler).
\<close>

theorem ranking_monotone:
  assumes "t_priority a = t_priority b" and "t_type a = t_type b"
    and "t_duration a = t_duration b" and "t_deadline a < t_deadline b"
  shows "getUrgencyScore now a \<ge> getUrgencyScore now b
         \<and> getBalancedScore now a \<ge> getBalancedScore now b"
  using assms by (simp add: getUrgencyScore_def getBalancedScore_def Let_def msPerHour_def)

theorem ranking_monotone_witness:
  "t_priority (exTask ''a'' 60 7200000 high work) = t_priority (exTask ''b'' 60 259200000 high work)
   \<and> t_type (exTask ''a'' 60 7200000 high work) = t_type (exTask ''b'' 60 259200000 high work)
   \<and> t_duration (exTask ''a'' 60 7200000 high work) = t_duration (exTask ''b'' 60 259200000 high work)
   \<and> t_deadline (exTask ''a'' 60 7200000 high work) < t_deadline (exTask ''b'' 60 259200000 high work)
   \<and> getUrgencyScore 0 (exTask ''a'' 60 7200000 high work) = 170
   \<and> getUrgencyScore 0 (exTask ''b'' 60 259200000 high work) = 130
   \<and> getBalancedScore 0 (exTask ''a'' 60 7200000 high work)
        \<ge> getBalancedScore 0 (exTask ''b'' 60 259200000 high work)"
  using ranking_monotone [of "exTask ''a'' 60 7200000 high work"
                             "exTask ''b'' 60 259200000 high work" 0]
  by (simp add: exTask_def getUrgencyScore_def msPerHour_def)

section \<open>Rules without recurrence (C6)\<close>

text \<open>
  The second version of the TimetableScheduler includes a rule without recurrence exactly
  on the calendar day of its template date. The ScheduleEngine and the first version of
  the TimetableScheduler include it on every day.
\<close>

lemma shouldIncludeBlock_tt2_nonrecurring:
  "u_recurring block = None \<Longrightarrow>
     shouldIncludeBlock_tt2 tz block date \<longleftrightarrow> sameDateString tz (u_startTime block) date"
  by (simp add: shouldIncludeBlock_tt2_def)

lemma shouldIncludeBlock_nonrecurring:
  "u_recurring block = None \<Longrightarrow>
     shouldIncludeBlock tz block date \<and> shouldIncludeBlock_tt1 tz block date"
  by (simp add: shouldIncludeBlock_def shouldIncludeBlock_tt1_def)

text \<open>
  C6, at a failing input. The rule \<open>dentist\<close> has no recurrence and the template date
  1970-01-01; the target date is 1970-01-08. \<open>shouldIncludeBlock\<close> of the ScheduleEngine
  (and of the first TimetableScheduler) includes it, and \<open>generateSchedule\<close> places its
  block on 1970-01-08; the second TimetableScheduler excludes it.
\<close>

theorem nonrecurring_rule_on_other_day:
  "u_recurring exDentist = None
   \<and> \<not> sameDateString 0 (u_startTime exDentist) (7 * msPerDay)
   \<and> shouldIncludeBlock 0 exDentist (7 * msPerDay)
   \<and> shouldIncludeBlock_tt1 0 exDentist (7 * msPerDay)
   \<and> \<not> shouldIncludeBlock_tt2 0 exDentist (7 * msPerDay)
   \<and> blockTimes (fst (generateSchedule 0 0 0 (exEngine [] [exDentist]) (7 * msPerDay)))
       = [(unavailable, 7 * msPerDay + hm 10 0, 7 * msPerDay + hm 11 0)]"
  by code_simp

section \<open>Break insertion in the TimetableScheduler (C7)\<close>

text \<open>
  C7 (amended). One step of the break-insertion loop, for adjacent tasks \<open>A\<close> and \<open>B\<close>,
  with \<open>c\<close> the accumulator after \<open>A\<close>'s duration is added and \<open>gap\<close> the time between them.
  Second version (\<open>insertIntelligentBreaks\<close>): a break is pushed exactly when the gap is at
  least 15 minutes and one of these holds: \<open>c \<ge> 90\<close> with a gap of at least 30 minutes;
  \<open>A\<close> lasts at least 45 minutes; \<open>A\<close> and \<open>B\<close> are both intensive. The break starts at
  the end of \<open>A\<close> and is 30 minutes long exactly when \<open>c \<ge> 90\<close> with a gap of at least 30
  minutes, and 15 minutes otherwise. The accumulator becomes zero exactly when that
  30-minute break is pushed or the gap is at least 60 minutes, and stays \<open>c\<close> otherwise.
  First version (\<open>insertBreaks\<close>): a break is pushed exactly when the gap is at least 15
  minutes and \<open>c < 120\<close> or the gap is at least 30 minutes; it is 30 minutes long when
  \<open>c \<ge> 120\<close> and 15 minutes otherwise; the accumulator becomes zero only with the
  30-minute break.
\<close>

theorem break_insertion_step:
  "(insertIntelligentBreaksStep A B c0 = (pushed, c') \<longrightarrow>
      (let c = c0 + taskDurationOf A;
           gap = b_startTime B - b_endTime A;
           long = (c \<ge> 90 \<and> gap \<ge> 30 * msPerMinute)
       in (pushed \<noteq> [] \<longleftrightarrow>
             gap \<ge> 15 * msPerMinute
             \<and> (long \<or> taskDurationOf A \<ge> 45 \<or> (isIntensive A \<and> isIntensive B)))
          \<and> length pushed \<le> 1
          \<and> list_all (\<lambda>b. b_type b = break \<and> b_startTime b = b_endTime A
                \<and> b_endTime b = b_endTime A + (if long then 30 else 15) * msPerMinute) pushed
          \<and> c' = (if long \<or> gap \<ge> 60 * msPerMinute then 0 else c)))
   \<and> (insertBreaksStep A B c0 = (pushed1, c1) \<longrightarrow>
      (let c = c0 + taskDurationOf A;
           gap = b_startTime B - b_endTime A
       in (pushed1 \<noteq> [] \<longleftrightarrow> gap \<ge> 15 * msPerMinute \<and> (c < 120 \<or> gap \<ge> 30 * msPerMinute))
          \<and> length pushed1 \<le> 1
          \<and> list_all (\<lambda>b. b_type b = break \<and> b_startTime b = b_endTime A
                \<and> b_endTime b = b_endTime A + (if c \<ge> 120 then 30 else 15) * msPerMinute) pushed1
          \<and> c1 = (if c \<ge> 120 \<and> gap \<ge> 30 * msPerMinute then 0 else c)))"
proof (intro conjI impI)
  assume "insertIntelligentBreaksStep A B c0 = (pushed, c')"
  then show "let c = c0 + taskDurationOf A;
           gap = b_startTime B - b_endTime A;
           long = (c \<ge> 90 \<and> gap \<ge> 30 * msPerMinute)
       in (pushed \<noteq> [] \<longleftrightarrow>
             gap \<ge> 15 * msPerMinute
             \<and> (long \<or> taskDurationOf A \<ge> 45 \<or> (isIntensive A \<and> isIntensive B)))
          \<and> length pushed \<le> 1
          \<and> list_all (\<lambda>b. b_type b = break \<and> b_startTime b = b_endTime A
                \<and> b_endTime b = b_endTime A + (if long then 30 else 15) * msPerMinute) pushed
          \<and> c' = (if long \<or> gap \<ge> 60 * msPerMinute then 0 else c)"
    unfolding insertIntelligentBreaksStep_def Let_def tt_shortBreakDuration_def
      tt_longBreakDuration_def tt_maxContinuousWork_def msPerMinute_def
    by (auto split: if_splits)
next
  assume "insertBreaksStep A B c0 = (pushed1, c1)"
  then show "let c = c0 + taskDurationOf A;
           gap = b_startTime B - b_endTime A
       in (pushed1 \<noteq> [] \<longleftrightarrow> gap \<ge> 15 * msPerMinute \<and> (c < 120 \<or> gap \<ge> 30 * msPerMinute))
          \<and> length pushed1 \<le> 1
          \<and> list_all (\<lambda>b. b_type b = break \<and> b_startTime b = b_endTime A
                \<and> b_endTime b = b_endTime A + (if c \<ge> 120 then 30 else 15) * msPerMinute) pushed1
          \<and> c1 = (if c \<ge> 120 \<and> gap \<ge> 30 * msPerMinute then 0 else c)"
    unfolding insertBreaksStep_def Let_def tt_shortBreakDuration_def
      tt_longBreakDuration_def tt_maxContinuousWork_def msPerMinute_def
    by (auto split: if_splits)
qed

theorem break_insertion_step_witness:
  "insertIntelligentBreaksStep exA45 exB 0 = ([exBreakV2], 45)
   \<and> insertBreaksStep exA45 exB 0 = ([exBreakV1], 45)
   \<and> taskDurationOf exA45 = 45
   \<and> b_startTime exB - b_endTime exA45 = 15 * msPerMinute
   \<and> b_endTime exBreakV2 = b_endTime exA45 + 15 * msPerMinute
   \<and> b_endTime exBreakV1 = b_endTime exA45 + 15 * msPerMinute"
proof -
  have v2: "insertIntelligentBreaksStep exA45 exB 0 = ([exBreakV2], 45)"
    by code_simp
  have v1: "insertBreaksStep exA45 exB 0 = ([exBreakV1], 45)"
    by code_simp
  have dur: "taskDurationOf exA45 = 45"
    by code_simp
  have gap: "b_startTime exB - b_endTime exA45 = 15 * msPerMinute"
    by code_simp
  from break_insertion_step [of exA45 exB 0 "[exBreakV2]" 45 "[exBreakV1]" 45] v2 v1 dur gap
  show ?thesis by (simp add: Let_def msPerMinute_def)
qed

text \<open>
  The claim as stated fails. After a 45-minute task and a gap of 15 minutes both versions
  push a 15-minute break although the accumulator (45) has not reached
  \<open>maxContinuousWork\<close> (90), and the accumulator is not reset by that break. After a
  90-minute task and a gap of 30 minutes the second version pushes a 30-minute break
  although the accumulator (90) has not reached 180.
\<close>

theorem break_insertion_counterexample:
  "blockTimes (fst (insertIntelligentBreaksStep exA45 exB 0)) = [(break, hm 9 45, hm 10 0)]
   \<and> snd (insertIntelligentBreaksStep exA45 exB 0) = 45
   \<and> blockTimes (fst (insertBreaksStep exA45 exB 0)) = [(break, hm 9 45, hm 10 0)]
   \<and> snd (insertBreaksStep exA45 exB 0) = 45
   \<and> 45 < tt_maxContinuousWork
   \<and> blockTimes (fst (insertIntelligentBreaksStep exA90 exB11 0)) = [(break, hm 10 30, hm 11 0)]
   \<and> blockTimes (insertIntelligentBreaks [exA45, exB])
       = [(task, hm 9 0, hm 9 45), (task, hm 10 0, hm 10 30), (break, hm 9 45, hm 10 0)]"
  by code_simp

section \<open>Deleting one occurrence of a recurring rule (C8)\<close>

lemma addRecurringBlocks_eq:
  "addRecurringBlocks tz workDay suppressedIds rules sched =
     sched @ concat (map (recurringInstance tz workDay)
       (filter (\<lambda>r. u_id r \<notin> suppressedIds \<and> shouldIncludeBlock tz r (wd_start workDay)) rules))"
  by (induction rules arbitrary: sched) auto

lemma splitOn_nonempty: "splitOn c s \<noteq> []"
  by (induction s) (auto split: list.splits)

lemma splitOn_append_sep:
  "c \<notin> set w \<Longrightarrow> splitOn c (w @ c # rest) = w # splitOn c rest"
  by (induction w) (auto split: list.splits simp: splitOn_nonempty)

text \<open>
  For a rule id without a hyphen the second part of the block id is the rule id; for an id
  with a hyphen it is only the text before the first hyphen of the rule id.
\<close>

lemma secondPart_instance_id:
  assumes "CHR ''-'' \<notin> set rid"
  shows "secondPart (''unavailable-'' @ rid @ ''-'' @ rest) = rid"
proof -
  have "splitOn CHR ''-'' (''unavailable-'' @ rid @ ''-'' @ rest)
        = ''unavailable'' # splitOn CHR ''-'' (rid @ CHR ''-'' # rest)"
    using splitOn_append_sep [of "CHR ''-''" "''unavailable''" "rid @ CHR ''-'' # rest"] by simp
  also have "\<dots> = ''unavailable'' # rid # splitOn CHR ''-'' rest"
    using splitOn_append_sep [OF assms] by simp
  finally show ?thesis by (simp add: secondPart_def)
qed

text \<open>
  Deleting a block whose id is built from a hyphen-free rule id puts the rule id into the
  suppression set of the block's date key only, and leaves the rules as they were.
\<close>

lemma delete_recurring_instance:
  assumes "find (\<lambda>b. b_id b = blockId) (schedule eng) = Some block"
    and "blockId = ''unavailable-'' @ rid @ ''-'' @ rest"
    and "CHR ''-'' \<notin> set rid"
  shows "suppressedRecurringInstances (snd (deleteTimeBlock tz nowP nowS eng blockId))
           (getDateKey (b_startTime block))
         = Some (insert rid (case suppressedRecurringInstances eng (getDateKey (b_startTime block))
                             of None \<Rightarrow> {} | Some s \<Rightarrow> s))"
    and "k \<noteq> getDateKey (b_startTime block) \<Longrightarrow>
         suppressedRecurringInstances (snd (deleteTimeBlock tz nowP nowS eng blockId)) k
         = suppressedRecurringInstances eng k"
    and "unavailableBlocks (snd (deleteTimeBlock tz nowP nowS eng blockId)) = unavailableBlocks eng"
proof -
  have pre: "\<not> startsWith blockId ''ad-hoc-''" "startsWith blockId ''unavailable-''"
    unfolding assms(2) by (simp_all add: startsWith_def)
  have part: "secondPart blockId = rid"
    unfolding assms(2) by (rule secondPart_instance_id [OF assms(3)])
  show "suppressedRecurringInstances (snd (deleteTimeBlock tz nowP nowS eng blockId))
           (getDateKey (b_startTime block))
         = Some (insert rid (case suppressedRecurringInstances eng (getDateKey (b_startTime block))
                             of None \<Rightarrow> {} | Some s \<Rightarrow> s))"
    using assms(1) pre part by (simp add: deleteTimeBlock_def generateSchedule_def Let_def)
  show "k \<noteq> getDateKey (b_startTime block) \<Longrightarrow>
         suppressedRecurringInstances (snd (deleteTimeBlock tz nowP nowS eng blockId)) k
         = suppressedRecurringInstances eng k"
    using assms(1) pre part by (simp add: deleteTimeBlock_def generateSchedule_def Let_def)
  show "unavailableBlocks (snd (deleteTimeBlock tz nowP nowS eng blockId)) = unavailableBlocks eng"
    using assms(1) pre part by (simp add: deleteTimeBlock_def generateSchedule_def Let_def)
qed

text \<open>
  C8, at a failing input. Rule ids are UUIDs (\<open>crypto.randomUUID()\<close>), which contain hyphens.
  For the weekly rule with id \<open>1b9d6bcd-bbfd-4b2d-9b5d-ab8dfbbd4bed\<close>, deleting its block
  on 1970-01-01 records \<open>1b9d6bcd\<close> in the suppression set, which is not the rule's id:
  the schedule returned by the deletion, and a regeneration of the same date, still hold
  the rule's block.
\<close>

theorem delete_recurring_uuid_not_suppressed:
  "map b_id (fst (generateSchedule 0 0 0 engWeekly 0)) = [exWeeklyBlockId]
   \<and> secondPart exWeeklyBlockId = ''1b9d6bcd''
   \<and> suppressedRecurringInstances
        (snd (deleteTimeBlock 0 0 0 (snd (generateSchedule 0 0 0 engWeekly 0)) exWeeklyBlockId))
        (getDateKey 0) = Some {''1b9d6bcd''}
   \<and> map b_id (fst (deleteTimeBlock 0 0 0 (snd (generateSchedule 0 0 0 engWeekly 0))
                      exWeeklyBlockId)) = [exWeeklyBlockId]
   \<and> blockTimes (fst (generateSchedule 0 0 0
        (snd (deleteTimeBlock 0 0 0 (snd (generateSchedule 0 0 0 engWeekly 0)) exWeeklyBlockId)) 0))
       = [(unavailable, hm 12 0, hm 13 0)]"
  by code_simp

section \<open>Input that the spec calls invalid (C9)\<close>

lemma addAdHocBlocks_eq:
  "addAdHocBlocks workDay blocks sched =
     sched @ map (\<lambda>b. b\<lparr>b_startTime := max (b_startTime b) (wd_start workDay),
                        b_endTime := min (b_endTime b) (wd_end workDay)\<rparr>)
       (filter (\<lambda>b. timeSlotsOverlap (b_startTime b) (b_endTime b)
                      (wd_start workDay) (wd_end workDay)) blocks)"
  by (induction blocks arbitrary: sched) auto

lemma breakBeforeTask_keeps:
  "breakBeforeTask cfg workDay sched cur cwt = (sched1, cur1, cwt1) \<Longrightarrow> set sched \<subseteq> set sched1"
  by (auto simp: breakBeforeTask_def Let_def split: if_splits)

lemma scheduleLoop_keeps:
  "set sched \<subseteq> set (scheduleLoop cfg workDay ts sched cur cwt)"
proof (induction ts arbitrary: sched cur cwt)
  case Nil
  then show ?case by simp
next
  case (Cons t ts)
  obtain sched1 cur1 cwt1 where bb: "breakBeforeTask cfg workDay sched cur cwt = (sched1, cur1, cwt1)"
    by (cases "breakBeforeTask cfg workDay sched cur cwt") auto
  have sub: "set sched \<subseteq> set sched1" using breakBeforeTask_keeps [OF bb] .
  show ?case
  proof (cases "findAvailableSlot sched1 cur1 (t_duration t) (wd_end workDay)")
    case None
    with bb sub show ?thesis by simp
  next
    case (Some slot)
    obtain s e where slot: "slot = (s, e)" by (cases slot) auto
    have "set (sched1 @ [taskBlock t s e])
            \<subseteq> set (scheduleLoop cfg workDay ts (sched1 @ [taskBlock t s e]) e (cwt1 + t_duration t))"
      by (rule Cons.IH)
    with sub have "set sched
            \<subseteq> set (scheduleLoop cfg workDay ts (sched1 @ [taskBlock t s e]) e (cwt1 + t_duration t))"
      by auto
    with bb Some slot sub show ?thesis by (auto simp: Let_def)
  qed
qed

text \<open>
  C9 (amended). The engine does not validate what it is given and has no error result.
  \<open>addUnavailableTime\<close> with an end at or before the start stores the block, and when
  the interval passes the window test of \<open>addUnavailableBlocks\<close> (start before the end of
  the working day, end after its start) the returned Schedule holds the block with its
  inverted or zero-length interval unchanged.
\<close>

theorem adhoc_block_not_validated:
  assumes "endTime \<le> startTime"
    and "startTime < wd_end (createWorkDay tz (config eng) startTime)"
    and "wd_start (createWorkDay tz (config eng) startTime) < endTime"
  shows "\<exists>b\<in>set (fst (addUnavailableTime tz nowP nowS eng startTime endTime title description)).
           b_id b = ''ad-hoc-'' @ showInt startTime \<and> b_type b = unavailable
           \<and> b_startTime b = startTime \<and> b_endTime b = endTime"
proof -
  define wd where "wd = createWorkDay tz (config eng) startTime"
  define blk where "blk = \<lparr>b_id = ''ad-hoc-'' @ showInt startTime, b_type = unavailable,
             b_startTime = startTime, b_endTime = endTime, b_title = title,
             b_description = description, b_taskId = None, b_task = None,
             b_isFixed = Some True\<rparr>"
  define stored where "stored = (case adHocUnavailableByDate eng (getDateKey startTime) of
                                   None \<Rightarrow> [] | Some bs \<Rightarrow> bs)"
  define eng1 where "eng1 = eng\<lparr>adHocUnavailableByDate :=
                       (adHocUnavailableByDate eng)(getDateKey startTime \<mapsto> stored @ [blk])\<rparr>"
  have res: "addUnavailableTime tz nowP nowS eng startTime endTime title description
             = generateSchedule tz nowP nowS eng1 startTime"
    by (simp add: addUnavailableTime_def Let_def eng1_def stored_def blk_def)
  have ov: "timeSlotsOverlap (b_startTime blk) (b_endTime blk) (wd_start wd) (wd_end wd)"
    using assms by (simp add: timeSlotsOverlap_def blk_def wd_def)
  have clamp: "blk\<lparr>b_startTime := max (b_startTime blk) (wd_start wd),
                   b_endTime := min (b_endTime blk) (wd_end wd)\<rparr> = blk"
    using assms by (simp add: blk_def wd_def max_def min_def)
  define U where "U = addUnavailableBlocks tz eng1 wd (getDateKey startTime) []"
  have "blk \<in> set U"
    unfolding U_def addUnavailableBlocks_def Let_def addAdHocBlocks_eq
    using ov clamp by (force simp: eng1_def)
  then have "blk \<in> set (scheduleTasks (config eng1) nowS (prioritizeTasks nowP (tasks eng1)) wd U)"
    unfolding scheduleTasks_def using scheduleLoop_keeps by blast
  then have "blk \<in> set (fst (generateSchedule tz nowP nowS eng1 startTime))"
    by (simp add: generateSchedule_def Let_def U_def wd_def eng1_def)
  then show ?thesis
    unfolding res by (rule bexI [rotated]) (simp add: blk_def)
qed

theorem adhoc_block_not_validated_witness:
  "hm 10 0 \<le> hm 12 0
   \<and> hm 12 0 < wd_end (createWorkDay 0 (config newEngine) (hm 12 0))
   \<and> wd_start (createWorkDay 0 (config newEngine) (hm 12 0)) < hm 10 0
   \<and> blockTimes (fst (addUnavailableTime 0 0 0 newEngine (hm 12 0) (hm 10 0) ''Errand'' None))
       = [(unavailable, hm 12 0, hm 10 0)]
   \<and> list_ex (\<lambda>b. b_id b = ''ad-hoc-'' @ showInt (hm 12 0) \<and> b_type b = unavailable
                 \<and> b_startTime b = hm 12 0 \<and> b_endTime b = hm 10 0)
        (fst (addUnavailableTime 0 0 0 newEngine (hm 12 0) (hm 10 0) ''Errand'' None))"
proof -
  have inverted: "hm 10 0 \<le> hm 12 0"
    by code_simp
  have before_end: "hm 12 0 < wd_end (createWorkDay 0 (config newEngine) (hm 12 0))"
    by code_simp
  have after_start: "wd_start (createWorkDay 0 (config newEngine) (hm 12 0)) < hm 10 0"
    by code_simp
  have times: "blockTimes (fst (addUnavailableTime 0 0 0 newEngine (hm 12 0) (hm 10 0) ''Errand'' None))
       = [(unavailable, hm 12 0, hm 10 0)]"
    by code_simp
  from adhoc_block_not_validated [OF inverted before_end after_start, of 0 0 "''Errand''" None]
    inverted before_end after_start times
  show ?thesis by (simp add: list_ex_iff)
qed

text \<open>
  The claim as stated fails: nothing is rejected and no error is reported. An ad-hoc block
  from 12:00 back to 10:00 and one from 12:00 to 12:00 are returned in the Schedule as
  they are; a daily rule from 12:00 back to 10:00 is materialised as an inverted block;
  a task of duration 0 is placed as a zero-length block.
\<close>

theorem invalid_input_counterexample:
  "blockTimes (fst (addUnavailableTime 0 0 0 newEngine (hm 12 0) (hm 10 0) ''Errand'' None))
     = [(unavailable, hm 12 0, hm 10 0)]
   \<and> blockTimes (fst (addUnavailableTime 0 0 0 newEngine (hm 12 0) (hm 12 0) ''Errand'' None))
     = [(unavailable, hm 12 0, hm 12 0)]
   \<and> blockTimes (fst (generateSchedule 0 0 0 engInverted 0)) = [(unavailable, hm 12 0, hm 10 0)]
   \<and> blockTimes (fst (generateSchedule 0 0 0 engZero 0)) = [(task, hm 9 0, hm 9 0)]"
  by code_simp

text \<open>
  In the TimetableScheduler a task of duration 0 needs \<open>ceil(0 / 30) = 0\<close> slots; the
  empty slice passes \<open>every\<close> and reading its first slot throws. This is an uncaught
  \<open>TypeError\<close>, not a validation result.
\<close>

lemma findAvailableSlot_tt1_zero_duration:
  "findAvailableSlot_tt1 0 [] 0 0 = Inl TypeError"
  by code_simp

section \<open>Rescheduling a task that is not in the schedule (C10)\<close>

text \<open>
  C10. When no block of the schedule \<open>S\<close> carries \<open>taskId\<close>, \<open>rescheduleTask\<close> returns \<open>S\<close>
  for every new start time: the engine's version returns \<open>S\<close> and leaves the engine as it
  was (the earlier engine has the same text), and the TimetableScheduler's version returns
  the timetable it was given.
\<close>

theorem reschedule_absent_task_identity:
  assumes "\<forall>b\<in>set S. b_taskId b \<noteq> Some taskId"
  shows "rescheduleTask (eng\<lparr>schedule := S\<rparr>) taskId newStart = (S, eng\<lparr>schedule := S\<rparr>)
         \<and> rescheduleTask_tt taskId newStart S = S"
proof -
  have "find (\<lambda>b. b_taskId b = Some taskId) S = None"
    using assms by (simp add: find_None_iff)
  moreover have "findIndex (\<lambda>b. b_taskId b = Some taskId) S = None"
    using assms by (simp add: findIndex_None)
  ultimately show ?thesis
    by (simp add: rescheduleTask_def rescheduleTask_tt_def)
qed

theorem reschedule_absent_task_identity_witness:
  "list_all (\<lambda>b. b_taskId b \<noteq> Some ''t9'') exSchedule
   \<and> rescheduleTask (newEngine\<lparr>schedule := exSchedule\<rparr>) ''t9'' (hm 14 0)
       = (exSchedule, newEngine\<lparr>schedule := exSchedule\<rparr>)
   \<and> rescheduleTask_tt ''t9'' (hm 14 0) exSchedule = exSchedule"
proof -
  have absent: "\<forall>b\<in>set exSchedule. b_taskId b \<noteq> Some ''t9''"
    by code_simp
  from reschedule_absent_task_identity [OF absent, of newEngine "hm 14 0"] absent
  show ?thesis by (simp add: list_all_iff)
qed

end
